theory Spec2Isabelle
  imports
    Main
    "HOL-Library.Word"
    "HOL-Library.Char_ord"
    "HOL-Library.List_Lexorder"
    "HOL-Library.Product_Lexorder"
    "HOL-Library.Multiset"
begin

unbundle bit_operations_syntax

section \<open>JavaScript values and errors\<close>

text \<open>
  The library is written in JavaScript. Values that cross the wire or are stored are
  JSON data; \<open>JUndefined\<close> is the value of a missing property and of a promise
  resolved without an argument. \<open>JCipher pk v\<close> stands for the base64 string that
  \<open>crypto.publicEncrypt(pk, Buffer.from(JSON.stringify(v))).toString('base64')\<close>
  returns: encryption is symbolic, only the holder of the matching private key reads
  \<open>v\<close> back.
\<close>

datatype rsa_pub = RsaPub (pub_id: nat) (pub_bytes: nat)
  \<comment> \<open>a public key: the keypair it belongs to, and its modulus length in bytes\<close>

datatype rsa_priv = RsaPriv (priv_id: nat) (priv_bytes: nat)

datatype jsval =
    JUndefined
  | JNull
  | JBool bool
  | JNum int
  | JStr string
  | JCipher rsa_pub jsval
  | JArr "jsval list"
  | JObj "(string \<times> jsval) list"

datatype js_error =
    TypeError
  | CryptoError
  | TransportError
  | Error string

type_synonym byte = "8 word"

section \<open>Kademlia node (core/KademliaNode.js)\<close>

subsection \<open>Buffers and hex strings\<close>

text \<open>
  \<open>Buffer.from(s, 'hex')\<close> decodes two characters at a time and stops at the first
  pair that is not two hex digits; a trailing single character is dropped.
  \<open>buf.toString('hex')\<close> writes two lowercase digits per byte.
\<close>

definition hex_val :: "char \<Rightarrow> nat option" where
  "hex_val c =
     (let n = (of_char c :: nat) in
      if 48 \<le> n \<and> n \<le> 57 then Some (n - 48)
      else if 97 \<le> n \<and> n \<le> 102 then Some (n - 87)
      else if 65 \<le> n \<and> n \<le> 70 then Some (n - 55)
      else None)"

fun from_hex :: "string \<Rightarrow> byte list" where
  "from_hex (a # b # rest) =
     (case (hex_val a, hex_val b) of
        (Some h, Some l) \<Rightarrow> word_of_nat (16 * h + l) # from_hex rest
      | _ \<Rightarrow> [])"
| "from_hex _ = []"

definition hex_digit :: "nat \<Rightarrow> char" where
  "hex_digit n = char_of (if n < 10 then 48 + n else 87 + n)"

definition to_hex :: "byte list \<Rightarrow> string" where
  "to_hex bs = concat (map (\<lambda>b. [hex_digit (unat b div 16), hex_digit (unat b mod 16)]) bs)"

subsection \<open>xorDistance and getBucketIndex\<close>

text \<open>
  \<open>xorDistance(a, b)\<close> allocates a buffer as long as \<open>a\<close>'s; where \<open>b\<close> is
  shorter, \<open>bufB[i]\<close> is \<open>undefined\<close> and \<open>bufA[i] ^ undefined\<close> is \<open>bufA[i]\<close>.
\<close>

fun xor_bufs :: "byte list \<Rightarrow> byte list \<Rightarrow> byte list" where
  "xor_bufs [] ys = []"
| "xor_bufs (x # xs) [] = x # xor_bufs xs []"
| "xor_bufs (x # xs) (y # ys) = (x XOR y) # xor_bufs xs ys"

definition xorDistance :: "string \<Rightarrow> string \<Rightarrow> string" where
  "xorDistance a b = to_hex (xor_bufs (from_hex a) (from_hex b))"

text \<open>
  The two nested loops of \<open>getBucketIndex\<close>: bytes from the front, in each byte the
  bits \<open>j = 0..7\<close> tested with \<open>buffer[i] & (1 << (7 - j))\<close>; the first hit returns
  \<open>i * 8 + j\<close>, and a buffer of zeros falls through to \<open>return 159\<close>.
\<close>

fun scan_bits :: "byte list \<Rightarrow> nat \<Rightarrow> nat option" where
  "scan_bits [] i = None"
| "scan_bits (b # bs) i =
     (case find (\<lambda>j. b AND push_bit (7 - j) 1 \<noteq> 0) [0..<8] of
        Some j \<Rightarrow> Some (i * 8 + j)
      | None \<Rightarrow> scan_bits bs (i + 1))"

definition getBucketIndex :: "string \<Rightarrow> string \<Rightarrow> nat" where
  "getBucketIndex self nid =
     (case scan_bits (from_hex (xorDistance self nid)) 0 of
        Some n \<Rightarrow> n
      | None \<Rightarrow> 159)"

subsection \<open>Routing table\<close>

record contact =
  cid :: string
  address :: string
  lastSeen :: int

record storage_entry =
  stored_value :: jsval
  timestamp :: int
  ttl :: int

record kademlia =
  nodeId :: string
  buckets :: "contact list list"
  storage :: "string \<rightharpoonup> storage_entry"
  alpha :: nat
  k :: nat

definition new_kademlia :: "string \<Rightarrow> kademlia" where
  "new_kademlia nid =
     \<lparr>nodeId = nid, buckets = replicate 160 [], storage = Map.empty, alpha = 3, k = 20\<rparr>"

text \<open>
  The constructor takes \<open>nodeId || crypto.randomBytes(20).toString('hex')\<close>: an empty
  (or missing) id is replaced by the random one. \<open>new_kademlia\<close> above is the node
  once its id is settled.
\<close>

definition KademliaNode :: "string \<Rightarrow> string \<Rightarrow> kademlia" where
  "KademliaNode nodeId' randomId = new_kademlia (if nodeId' = [] then randomId else nodeId')"

fun findIndex :: "('a \<Rightarrow> bool) \<Rightarrow> 'a list \<Rightarrow> nat option" where
  "findIndex P [] = None"
| "findIndex P (x # xs) =
     (if P x then Some 0 else map_option Suc (findIndex P xs))"

text \<open>
  \<open>addNode\<close>: \<open>findIndex\<close>, \<open>splice(existingIndex, 1)\<close> when the index is not
  \<open>-1\<close>, \<open>unshift\<close>, and one \<open>pop\<close> when the bucket is longer than \<open>k\<close>. An
  index past the 160 buckets reads \<open>undefined\<close>, and \<open>bucket.findIndex\<close> on it
  raises a TypeError before anything is changed.
\<close>

definition splice_existing :: "string \<Rightarrow> contact list \<Rightarrow> contact list" where
  "splice_existing nid bucket =
     (case findIndex (\<lambda>node. cid node = nid) bucket of
        Some existingIndex \<Rightarrow> take existingIndex bucket @ drop (Suc existingIndex) bucket
      | None \<Rightarrow> bucket)"

definition addNode :: "kademlia \<Rightarrow> string \<Rightarrow> string \<Rightarrow> int \<Rightarrow> js_error + kademlia" where
  "addNode st nid addr now =
     (let bucketIndex = getBucketIndex (nodeId st) nid in
      if length (buckets st) \<le> bucketIndex then Inl TypeError
      else
        let bucket = buckets st ! bucketIndex;
            unshifted = \<lparr>cid = nid, address = addr, lastSeen = now\<rparr> # splice_existing nid bucket;
            popped = (if k st < length unshifted then butlast unshifted else unshifted)
        in Inr (st\<lparr>buckets := (buckets st)[bucketIndex := popped]\<rparr>))"

text \<open>
  A run of observations, as \<open>handleMessage\<close> makes them: one \<open>addNode\<close> per
  received frame, inside a \<open>try\<close> whose \<open>catch\<close> only logs, so a failed call leaves
  the table as it was.
\<close>

fun observe_all :: "kademlia \<Rightarrow> (string \<times> string \<times> int) list \<Rightarrow> kademlia" where
  "observe_all st [] = st"
| "observe_all st ((nid, addr, now) # rest) =
     observe_all (case addNode st nid addr now of Inl e \<Rightarrow> st | Inr st' \<Rightarrow> st') rest"

subsection \<open>findClosestNodes\<close>

text \<open>
  \<open>buckets.flat()\<close>, every node paired with its \<open>distance\<close> string, then
  \<open>sort((a, b) => a.distance.localeCompare(b.distance))\<close> and \<open>slice(0, count)\<close>.
  The distances are lowercase hex strings, on which \<open>localeCompare\<close> is the
  lexicographic order of the characters (digits before letters); \<open>Array.prototype.sort\<close>
  is stable, so it is \<open>sort_key\<close> on the strings.
\<close>

definition findClosestNodes :: "kademlia \<Rightarrow> string \<Rightarrow> nat \<Rightarrow> (contact \<times> string) list" where
  "findClosestNodes st target count' =
     take count'
       (sort_key snd
          (map (\<lambda>node. (node, xorDistance (cid node) target)) (concat (buckets st))))"

subsection \<open>Datagrams\<close>

datatype response =
    FOUND jsval
  | NODES "(contact \<times> string) list"
  | PONG string
  | NAT_PUNCH_ACK string

datatype datagram =
    STORE string jsval string
  | FIND_VALUE string string
  | Response response string

datatype request =
    ReqSTORE string jsval
  | ReqFIND_VALUE string
  | ReqPING
  | ReqNAT_PUNCH
  | ReqOther string

datatype settled = Fulfilled jsval | Rejected js_error

fun truthy :: "jsval \<Rightarrow> bool" where
  "truthy JUndefined = False"
| "truthy JNull = False"
| "truthy (JBool b) = b"
| "truthy (JNum n) = (n \<noteq> 0)"
| "truthy (JStr s) = (s \<noteq> [])"
| "truthy (JCipher pk v) = True"
| "truthy (JArr xs) = True"
| "truthy (JObj kvs) = True"

subsection \<open>store, retrieve and the message handler\<close>

text \<open>
  The environment of a call: \<open>now\<close> is \<open>Date.now()\<close>, \<open>sha1\<close> is
  \<open>crypto.createHash('sha1').update(key).digest('hex')\<close>, and \<open>send_fails addr\<close>
  says whether the callback of \<open>socket.send\<close> to \<open>addr\<close> reports an error.

  \<open>sendFindValue\<close> settles on the outcome of the send alone: \<open>resolve()\<close> without
  an argument when the datagram left, \<open>reject(err)\<close> otherwise; the timer's
  \<open>reject\<close> after 5 s finds the promise settled. No code path reads a reply.
\<close>

definition sendFindValue :: "(string \<Rightarrow> bool) \<Rightarrow> kademlia \<Rightarrow> string \<Rightarrow> string \<Rightarrow> (string \<times> datagram) \<times> settled" where
  "sendFindValue send_fails st addr key =
     ((addr, FIND_VALUE key (nodeId st)),
      if send_fails addr then Rejected TransportError else Fulfilled JUndefined)"

fun first_fulfilled :: "settled list \<Rightarrow> jsval" where
  "first_fulfilled [] = JNull"
| "first_fulfilled (Fulfilled v # rest) = (if truthy v then v else first_fulfilled rest)"
| "first_fulfilled (Rejected e # rest) = first_fulfilled rest"

definition fresh_entry :: "kademlia \<Rightarrow> int \<Rightarrow> string \<Rightarrow> storage_entry option" where
  "fresh_entry st now keyHash =
     (case storage st keyHash of
        Some stored \<Rightarrow> if now - timestamp stored < ttl stored then Some stored else None
      | None \<Rightarrow> None)"

text \<open>\<open>retrieve\<close> returns the value and the datagrams it handed to the socket.\<close>

definition retrieve :: "(string \<Rightarrow> string) \<Rightarrow> (string \<Rightarrow> bool) \<Rightarrow> kademlia \<Rightarrow> int \<Rightarrow> string \<Rightarrow> jsval \<times> (string \<times> datagram) list" where
  "retrieve sha1 send_fails st now key =
     (let keyHash = sha1 key in
      case fresh_entry st now keyHash of
        Some stored \<Rightarrow> (stored_value stored, [])
      | None \<Rightarrow>
          let closestNodes = findClosestNodes st keyHash (k st);
              queries = map (\<lambda>node. sendFindValue send_fails st (address (fst node)) keyHash)
                          (take (alpha st) closestNodes)
          in (first_fulfilled (map snd queries), map fst queries))"

text \<open>
  \<open>store\<close> awaits one \<open>sendStore\<close> after the other; the first failed send rejects
  and the remaining nodes are not contacted.
\<close>

fun sendStores :: "(string \<Rightarrow> bool) \<Rightarrow> kademlia \<Rightarrow> string \<Rightarrow> jsval \<Rightarrow> (contact \<times> string) list \<Rightarrow> (js_error + unit) \<times> (string \<times> datagram) list" where
  "sendStores send_fails st keyHash v [] = (Inr (), [])"
| "sendStores send_fails st keyHash v (node # rest) =
     (if send_fails (address (fst node)) then (Inl TransportError, [])
      else
        let (outcome, sent) = sendStores send_fails st keyHash v rest
        in (outcome, (address (fst node), STORE keyHash v (nodeId st)) # sent))"

definition store :: "(string \<Rightarrow> string) \<Rightarrow> (string \<Rightarrow> bool) \<Rightarrow> kademlia \<Rightarrow> int \<Rightarrow> string \<Rightarrow> jsval \<Rightarrow> (js_error + unit) \<times> kademlia \<times> (string \<times> datagram) list" where
  "store sha1 send_fails st now key v =
     (let keyHash = sha1 key;
          st' = st\<lparr>storage := (storage st)(keyHash \<mapsto>
                   \<lparr>stored_value = v, timestamp = now, ttl = 3600000\<rparr>)\<rparr>;
          closestNodes = findClosestNodes st' keyHash (k st');
          (outcome, sent) = sendStores send_fails st' keyHash v (take (k st') closestNodes)
      in (outcome, st', sent))"

text \<open>
  \<open>handleMessage\<close> for a parsed frame from \<open>sender\<close> carrying \<open>nodeId = nid\<close>.
  Everything runs inside one \<open>try\<close>: when \<open>addNode\<close> throws, the frame is dropped
  and only logged.
\<close>

definition handleMessage :: "kademlia \<Rightarrow> int \<Rightarrow> string \<Rightarrow> string \<Rightarrow> request \<Rightarrow> kademlia \<times> (string \<times> datagram) list" where
  "handleMessage st now sender nid req =
     (case addNode st nid sender now of
        Inl e \<Rightarrow> (st, [])
      | Inr st1 \<Rightarrow>
          (case req of
             ReqSTORE key v \<Rightarrow>
               (st1\<lparr>storage := (storage st1)(key \<mapsto>
                       \<lparr>stored_value = v, timestamp = now, ttl = 3600000\<rparr>)\<rparr>, [])
           | ReqFIND_VALUE key \<Rightarrow>
               (case fresh_entry st1 now key of
                  Some stored \<Rightarrow>
                    (st1, [(sender, Response (FOUND (stored_value stored)) (nodeId st1))])
                | None \<Rightarrow>
                    (st1, [(sender, Response (NODES (findClosestNodes st1 key (k st1))) (nodeId st1))]))
           | ReqPING \<Rightarrow> (st1, [(sender, Response (PONG (nodeId st1)) (nodeId st1))])
           | ReqNAT_PUNCH \<Rightarrow> (st1, [(sender, Response (NAT_PUNCH_ACK (nodeId st1)) (nodeId st1))])
           | ReqOther t \<Rightarrow> (st1, [])))"

section \<open>Identity (core/AnonymousIdentity.js)\<close>

text \<open>
  \<open>crypto.generateKeyPairSync('rsa', { modulusLength: 2048 })\<close> yields a fresh
  keypair; the number that names it is the random choice. A signature is symbolic:
  the key that made it and the message.
\<close>

datatype keypair = KeyPair (publicKey: rsa_pub) (privateKey: rsa_priv)

definition generateKeyPairSync :: "nat \<Rightarrow> keypair" where
  "generateKeyPairSync fresh = KeyPair (RsaPub fresh 256) (RsaPriv fresh 256)"

datatype signature = Signature rsa_priv string

record ephemeral =
  keyPair :: keypair
  created :: int
  uses :: nat

record anonymous_identity =
  id_keyPair :: keypair
  ephemeralKeys :: "string \<rightharpoonup> ephemeral"
  reputation :: int
  pseudonym :: string

definition generateEphemeralKey :: "anonymous_identity \<Rightarrow> int \<Rightarrow> nat \<Rightarrow> string \<Rightarrow> string \<times> anonymous_identity" where
  "generateEphemeralKey idn now fresh keyId =
     (keyId,
      idn\<lparr>ephemeralKeys := (ephemeralKeys idn)(keyId \<mapsto>
             \<lparr>keyPair = generateKeyPairSync fresh, created = now, uses = 0\<rparr>)\<rparr>)"

text \<open>
  \<open>signWithEphemeral\<close>: a missing handle throws; otherwise \<open>uses++\<close>, the entry is
  deleted from the map when \<open>uses > 100\<close> or \<open>Date.now() - created > 3600000\<close>,
  and the signature is made with the key read at the start in either case.
\<close>

definition signWithEphemeral :: "anonymous_identity \<Rightarrow> int \<Rightarrow> string \<Rightarrow> string \<Rightarrow> js_error + (signature \<times> anonymous_identity)" where
  "signWithEphemeral idn now message keyId =
     (case ephemeralKeys idn keyId of
        None \<Rightarrow> Inl (Error ''Ephemeral key not found'')
      | Some e \<Rightarrow>
          let e' = e\<lparr>uses := uses e + 1\<rparr>;
              keys' = (if 100 < uses e' \<or> 3600000 < now - created e'
                       then (ephemeralKeys idn)(keyId := None)
                       else (ephemeralKeys idn)(keyId \<mapsto> e'))
          in Inr (Signature (privateKey (keyPair e')) message, idn\<lparr>ephemeralKeys := keys'\<rparr>))"

section \<open>Onion router (core/OnionRouter.js)\<close>

subsection \<open>JSON.stringify and JSON.parse\<close>

text \<open>
  The length in bytes of \<open>JSON.stringify(v)\<close>: strings are quoted, with \<open>"\<close> and
  \<open>\\<close> escaped by a backslash, the five short control escapes two characters long
  and the other control characters six; a member whose value is \<open>undefined\<close> is left
  out of an object and written \<open>null\<close> in an array. A ciphertext is the base64 of as
  many bytes as the key's modulus has, four characters for every three bytes. A number
  \<open>JNum i\<close> is an integer below \<open>10^21\<close> in magnitude, which is written in decimal
  digits (from \<open>1e21\<close> on \<open>JSON.stringify\<close> uses the exponent form, which is not
  modelled).
\<close>

definition esc_len :: "char \<Rightarrow> nat" where
  "esc_len c =
     (let n = (of_char c :: nat) in
      if n = 34 \<or> n = 92 then 2
      else if n = 8 \<or> n = 9 \<or> n = 10 \<or> n = 12 \<or> n = 13 then 2
      else if n < 32 then 6
      else 1)"

definition quoted_len :: "string \<Rightarrow> nat" where
  "quoted_len s = 2 + sum_list (map esc_len s)"

fun dec_len :: "nat \<Rightarrow> nat" where
  "dec_len n = (if n < 10 then 1 else Suc (dec_len (n div 10)))"

definition num_len :: "int \<Rightarrow> nat" where
  "num_len i = (if i < 0 then Suc (dec_len (nat (- i))) else dec_len (nat i))"

definition base64_len :: "nat \<Rightarrow> nat" where
  "base64_len n = 4 * ((n + 2) div 3)"

definition joined_len :: "nat list \<Rightarrow> nat" where
  "joined_len parts = sum_list parts + (length parts - 1)"

fun stringify_len :: "jsval \<Rightarrow> nat" where
  "stringify_len JUndefined = 4"
| "stringify_len JNull = 4"
| "stringify_len (JBool b) = (if b then 4 else 5)"
| "stringify_len (JNum i) = num_len i"
| "stringify_len (JStr s) = quoted_len s"
| "stringify_len (JCipher pk v) = 2 + base64_len (pub_bytes pk)"
| "stringify_len (JArr xs) = 2 + joined_len (map stringify_len xs)"
| "stringify_len (JObj kvs) =
     2 + joined_len (map (\<lambda>kv. quoted_len (fst kv) + 1 + stringify_len (snd kv))
                       (filter (\<lambda>kv. snd kv \<noteq> JUndefined) kvs))"

text \<open>What \<open>JSON.parse(JSON.stringify(v))\<close> gives back for a value that is not \<open>undefined\<close>.\<close>

fun json_roundtrip :: "jsval \<Rightarrow> jsval" where
  "json_roundtrip JUndefined = JNull"
| "json_roundtrip JNull = JNull"
| "json_roundtrip (JBool b) = JBool b"
| "json_roundtrip (JNum i) = JNum i"
| "json_roundtrip (JStr s) = JStr s"
| "json_roundtrip (JCipher pk v) = JCipher pk v"
| "json_roundtrip (JArr xs) = JArr (map json_roundtrip xs)"
| "json_roundtrip (JObj kvs) =
     JObj (map (\<lambda>kv. (fst kv, json_roundtrip (snd kv)))
             (filter (\<lambda>kv. snd kv \<noteq> JUndefined) kvs))"

text \<open>
  Reading a property: a TypeError on \<open>undefined\<close> and \<open>null\<close>, the member of an
  object, and \<open>undefined\<close> where there is none (no number, boolean, string or array
  has a property of the names read here).
\<close>

definition get_prop :: "jsval \<Rightarrow> string \<Rightarrow> js_error + jsval" where
  "get_prop v name =
     (case v of
        JUndefined \<Rightarrow> Inl TypeError
      | JNull \<Rightarrow> Inl TypeError
      | JObj kvs \<Rightarrow> Inr (case map_of kvs name of Some x \<Rightarrow> x | None \<Rightarrow> JUndefined)
      | _ \<Rightarrow> Inr JUndefined)"

subsection \<open>Layers\<close>

text \<open>
  \<open>crypto.publicEncrypt\<close> with an RSA key and no padding option pads with OAEP over
  SHA-1: a key whose modulus is \<open>n\<close> bytes long takes at most \<open>n - 2 * 20 - 2\<close> bytes
  of plaintext (214 for RSA-2048) and throws on anything longer.
  \<open>JSON.stringify(undefined)\<close> is \<open>undefined\<close>, on which \<open>Buffer.from\<close> raises a
  TypeError. The \<open>nextHop\<close> tag of a layer is \<open>crypto.randomBytes(16)\<close> in hex,
  here the argument \<open>tag\<close>.
\<close>

definition oaep_overhead :: nat where
  "oaep_overhead = 2 * 20 + 2"

definition encryptLayer :: "jsval \<Rightarrow> rsa_pub \<Rightarrow> string \<Rightarrow> js_error + jsval" where
  "encryptLayer data' pk tag =
     (if data' = JUndefined then Inl TypeError
      else if pub_bytes pk < stringify_len data' + oaep_overhead then Inl CryptoError
      else Inr (JObj [(''encrypted'', JCipher pk data'), (''nextHop'', JStr tag)]))"

text \<open>
  \<open>decryptLayer\<close>: whatever fails inside the \<open>try\<close> (reading \<open>packet.encrypted\<close>,
  decoding it, decrypting with a key that is not the one the layer was made for,
  parsing the plaintext) is rethrown as \<open>Error('Decryption failed')\<close>.
\<close>

definition key_matches :: "rsa_priv \<Rightarrow> rsa_pub \<Rightarrow> bool" where
  "key_matches sk pk \<longleftrightarrow> priv_id sk = pub_id pk \<and> priv_bytes sk = pub_bytes pk"

definition decryptLayer :: "jsval \<Rightarrow> rsa_priv \<Rightarrow> js_error + jsval" where
  "decryptLayer packet sk =
     (case get_prop packet ''encrypted'' of
        Inr (JCipher pk plain) \<Rightarrow>
          if key_matches sk pk \<and> plain \<noteq> JUndefined then Inr (json_roundtrip plain)
          else Inl (Error ''Decryption failed'')
      | _ \<Rightarrow> Inl (Error ''Decryption failed''))"

record hop =
  hop_id :: string
  hop_publicKey :: rsa_pub
  hop_address :: string

text \<open>
  The loop of \<open>createOnionPacket\<close> runs \<open>i\<close> from \<open>circuit.length - 1\<close> down to
  \<open>0\<close>; \<open>encryptLayers\<close> is that loop on the hops still to do, the last one first,
  and a throw of \<open>encryptLayer\<close> ends it. \<open>tags i\<close> is the random tag drawn for the
  layer of hop \<open>i\<close>.
\<close>

fun encryptLayers :: "jsval \<Rightarrow> hop list \<Rightarrow> (nat \<Rightarrow> string) \<Rightarrow> js_error + jsval" where
  "encryptLayers packet [] tags = Inr packet"
| "encryptLayers packet (node # earlier) tags =
     (case encryptLayer packet (hop_publicKey node) (tags (length earlier)) of
        Inl e \<Rightarrow> Inl e
      | Inr packet' \<Rightarrow> encryptLayers packet' earlier tags)"

definition createOnionPacket :: "jsval \<Rightarrow> hop list \<Rightarrow> int \<Rightarrow> (nat \<Rightarrow> string) \<Rightarrow> js_error + jsval" where
  "createOnionPacket message circuit now tags =
     encryptLayers (JObj [(''payload'', message), (''timestamp'', JNum now)]) (rev circuit) tags"

subsection \<open>Circuits\<close>

record onion_router =
  circuits :: "string \<rightharpoonup> hop list"
  relayNodes :: "string set"
  circuitLength :: nat

text \<open>
  The random choices of one anonymous send: the keys of \<open>findCircuitNodes\<close>, the
  circuit id, and for the \<open>j\<close>-th call of \<open>getNodeInfo\<close> the fresh keypair and the
  random address it makes up, and the tags of the layers.
\<close>

record randomness =
  randomKeys :: "nat \<Rightarrow> string"
  randomCircuitId :: string
  freshKeys :: "nat \<Rightarrow> nat"
  randomAddresses :: "nat \<Rightarrow> string"
  hopTags :: "nat \<Rightarrow> string"

definition getNodeInfo :: "randomness \<Rightarrow> nat \<Rightarrow> string \<Rightarrow> (rsa_pub \<times> string) option" where
  "getNodeInfo rnd j nid =
     Some (publicKey (generateKeyPairSync (freshKeys rnd j)), randomAddresses rnd j)"

fun buildHops :: "randomness \<Rightarrow> nat \<Rightarrow> string list \<Rightarrow> hop list" where
  "buildHops rnd j [] = []"
| "buildHops rnd j (nid # rest) =
     (case getNodeInfo rnd j nid of
        Some node \<Rightarrow>
          \<lparr>hop_id = nid, hop_publicKey = fst node, hop_address = snd node\<rparr>
            # buildHops rnd (Suc j) rest
      | None \<Rightarrow> buildHops rnd (Suc j) rest)"

definition buildCircuit :: "onion_router \<Rightarrow> randomness \<Rightarrow> string list \<Rightarrow> string \<times> onion_router" where
  "buildCircuit router rnd targetNodes =
     (let circuitId = randomCircuitId rnd;
          circuit = buildHops rnd 0 targetNodes
      in (circuitId, router\<lparr>circuits := (circuits router)(circuitId \<mapsto> circuit)\<rparr>))"

section \<open>Overlay node (network/AnonymousP2PNode.js)\<close>

record p2p_node =
  identity :: anonymous_identity
  onionRouter :: onion_router
  dht :: kademlia

datatype effect =
    TcpSend string jsval
  | Emit string jsval
  | ConsoleError js_error

text \<open>
  \<open>processOnionPacket\<close> calls \<open>this.forwardOnionPacket(decrypted, decrypted.nextHop)\<close>.
  Neither the class nor \<open>EventEmitter\<close> has a member of that name: the property
  reads \<open>undefined\<close>, and calling it raises a TypeError.
\<close>

definition forwardOnionPacket :: "jsval \<Rightarrow> jsval \<Rightarrow> js_error + effect list" where
  "forwardOnionPacket packet nextHop = Inl TypeError"

definition processOnionPacket :: "p2p_node \<Rightarrow> jsval \<Rightarrow> effect list" where
  "processOnionPacket node message =
     (case get_prop message ''packet'' of
        Inl e \<Rightarrow> [ConsoleError e]
      | Inr packet \<Rightarrow>
          (case decryptLayer packet (privateKey (id_keyPair (identity node))) of
             Inl e \<Rightarrow> [ConsoleError e]
           | Inr decrypted \<Rightarrow>
               (case get_prop decrypted ''nextHop'' of
                  Inl e \<Rightarrow> [ConsoleError e]
                | Inr nextHop \<Rightarrow>
                    if truthy nextHop then
                      (case forwardOnionPacket decrypted nextHop of
                         Inl e \<Rightarrow> [ConsoleError e]
                       | Inr sent \<Rightarrow> sent)
                    else
                      (case get_prop decrypted ''payload'' of
                         Inl e \<Rightarrow> [ConsoleError e]
                       | Inr payload \<Rightarrow> [Emit ''anonymousMessage'' payload]))))"

text \<open>
  The \<open>switch\<close> of \<open>processMessage\<close>. The handlers of the three other types are
  not members of the class either, and nothing catches their TypeError.
\<close>

definition processMessage :: "p2p_node \<Rightarrow> jsval \<Rightarrow> js_error + effect list" where
  "processMessage node message =
     (case get_prop message ''type'' of
        Inl e \<Rightarrow> Inl e
      | Inr t \<Rightarrow>
          if t = JStr ''ONION_PACKET'' then Inr (processOnionPacket node message)
          else if t = JStr ''DHT_QUERY'' \<or> t = JStr ''PEER_DISCOVERY''
                  \<or> t = JStr ''ANONYMOUS_MESSAGE'' then Inl TypeError
          else Inr [])"

definition findCircuitNodes :: "kademlia \<Rightarrow> randomness \<Rightarrow> nat \<Rightarrow> string list" where
  "findCircuitNodes table rnd count' =
     concat (map (\<lambda>i. case findClosestNodes table (randomKeys rnd i) 1 of
                         [] \<Rightarrow> []
                       | closest # others \<Rightarrow> [cid (fst closest)])
                 [0..<count'])"

definition sendToNode :: "(string \<Rightarrow> bool) \<Rightarrow> string \<Rightarrow> jsval \<Rightarrow> (js_error + unit) \<times> effect list" where
  "sendToNode connect_fails addr message =
     (if connect_fails addr then (Inl TransportError, [])
      else (Inr (), [TcpSend addr message]))"

text \<open>
  \<open>sendAnonymousMessage(message, targetPseudonym)\<close>: the outcome, the node with the
  circuit remembered, and what was written to the wire. \<open>circuit[0]\<close> of an empty
  circuit is \<open>undefined\<close>, and \<open>firstHop.address\<close> raises a TypeError.
\<close>

definition sendAnonymousMessage :: "p2p_node \<Rightarrow> randomness \<Rightarrow> (string \<Rightarrow> bool) \<Rightarrow> int \<Rightarrow> jsval \<Rightarrow> string \<Rightarrow> (js_error + unit) \<times> p2p_node \<times> effect list" where
  "sendAnonymousMessage node rnd connect_fails now message targetPseudonym =
     (let circuitNodes = findCircuitNodes (dht node) rnd 3;
          (circuitId, router') = buildCircuit (onionRouter node) rnd circuitNodes;
          node' = node\<lparr>onionRouter := router'\<rparr>
      in case circuits router' circuitId of
           None \<Rightarrow> (Inl TypeError, node', [])
         | Some circuit \<Rightarrow>
             (case createOnionPacket message circuit now (hopTags rnd) of
                Inl e \<Rightarrow> (Inl e, node', [])
              | Inr packet \<Rightarrow>
                  (case circuit of
                     [] \<Rightarrow> (Inl TypeError, node', [])
                   | firstHop # others \<Rightarrow>
                       let (outcome, sent) =
                             sendToNode connect_fails (hop_address firstHop)
                               (JObj [(''type'', JStr ''ONION_PACKET''),
                                      (''packet'', packet),
                                      (''circuitId'', JStr circuitId)])
                       in (outcome, node', sent))))"

section \<open>Notions of the statements\<close>

text \<open>
  Bit \<open>p\<close> of a buffer, counted from the most significant bit of its first byte, and
  the invariant of the routing table that \<open>addNode\<close> keeps.
\<close>

definition bit_at :: "byte list \<Rightarrow> nat \<Rightarrow> bool" where
  "bit_at bs p = bit (bs ! (p div 8)) (7 - p mod 8)"

definition canonical_id :: "string \<Rightarrow> bool" where
  "canonical_id s \<longleftrightarrow> to_hex (from_hex s) = s"
  \<comment> \<open>the id is the lowercase hex string of the bytes it decodes to\<close>

definition table_inv :: "kademlia \<Rightarrow> bool" where
  "table_inv st \<longleftrightarrow>
     (\<forall>i < length (buckets st).
        length (buckets st ! i) \<le> k st
        \<and> distinct (map cid (buckets st ! i))
        \<and> (\<forall>c \<in> set (buckets st ! i). getBucketIndex (nodeId st) (cid c) = i))"




text \<open>Tables used as concrete inputs.\<close>

definition tie_table :: kademlia where
  "tie_table = observe_all (new_kademlia ''0000000000000000000000000000000000000000'')
     [(''ab00000000000000000000000000000000000000'', ''1.1.1.1:3000'', 1),
      (''AB00000000000000000000000000000000000000'', ''9.9.9.9:3000'', 2)]"


definition stored_table :: kademlia where
  "stored_table = (new_kademlia ''0000'')\<lparr>storage :=
     [''00aa'' \<mapsto> \<lparr>stored_value = JNum 42, timestamp = 0, ttl = 3600000\<rparr>]\<rparr>"

text \<open>
  A querier that knows one contact, the holder, which has done \<open>put("alpha", 42)\<close>
  itself at time 500; \<open>alpha_hash\<close> is SHA-1 on that key.
\<close>

definition alpha_hash :: "string \<Rightarrow> string" where
  "alpha_hash key = ''be76331b95dfc399cd776d2fc68021e0db03cc4f''"

definition querier :: kademlia where
  "querier = observe_all (new_kademlia ''a1a1a1a1a1a1a1a1a1a1a1a1a1a1a1a1a1a1a1a1'')
     [(''b2b2b2b2b2b2b2b2b2b2b2b2b2b2b2b2b2b2b2b2'', ''10.0.0.2:3000'', 0)]"

definition holder :: kademlia where
  "holder = fst (snd (store alpha_hash (\<lambda>addr. False)
     (new_kademlia ''b2b2b2b2b2b2b2b2b2b2b2b2b2b2b2b2b2b2b2b2'') 500 ''alpha'' (JNum 42)))"

text \<open>
  A fresh identity, router and overlay node as the constructors make them, a hop with
  an RSA-2048 key, and one fixed draw of the layer tags.
\<close>

definition new_identity :: "nat \<Rightarrow> string \<Rightarrow> anonymous_identity" where
  "new_identity fresh tag =
     \<lparr>id_keyPair = generateKeyPairSync fresh, ephemeralKeys = Map.empty,
      reputation = 0, pseudonym = tag\<rparr>"

definition new_router :: onion_router where
  "new_router = \<lparr>circuits = Map.empty, relayNodes = {}, circuitLength = 3\<rparr>"

definition new_node :: "nat \<Rightarrow> string \<Rightarrow> p2p_node" where
  "new_node fresh tag =
     \<lparr>identity = new_identity fresh tag, onionRouter = new_router, dht = new_kademlia tag\<rparr>"

definition rsa2048_hop :: "nat \<Rightarrow> string \<Rightarrow> string \<Rightarrow> hop" where
  "rsa2048_hop fresh nid addr =
     \<lparr>hop_id = nid, hop_publicKey = publicKey (generateKeyPairSync fresh), hop_address = addr\<rparr>"

text \<open>An overlay node whose routing table holds one contact.\<close>

definition sender_node :: p2p_node where
  "sender_node = (new_node 7 ''5f1d0c3e9a7b42d6885e0a1b2c3d4e5f'')\<lparr>dht :=
     observe_all (new_kademlia ''5f1d0c3e9a7b42d6885e0a1b2c3d4e5f'')
       [(''b2b2b2b2b2b2b2b2b2b2b2b2b2b2b2b2b2b2b2b2'', ''10.0.0.2:3000'', 0)]\<rparr>"

definition fixed_tags :: "nat \<Rightarrow> string" where
  "fixed_tags i = ''000102030405060708090a0b0c0d0e0f''"

text \<open>
  One fixed set of random choices, and a frame of type \<open>ONION_PACKET\<close> around a
  packet; \<open>forwarding_plaintext\<close> is a layer's plaintext that names a next hop.
\<close>

definition fixed_randomness :: randomness where
  "fixed_randomness =
     \<lparr>randomKeys = (\<lambda>i. ''be76331b95dfc399cd776d2fc68021e0db03cc4f''),
      randomCircuitId = ''00112233445566778899aabbccddeeff'',
      freshKeys = (\<lambda>j. 100 + j),
      randomAddresses = (\<lambda>j. ''17.42.3.250:3141''),
      hopTags = fixed_tags\<rparr>"

definition forwarding_plaintext :: jsval where
  "forwarding_plaintext =
     JObj [(''encrypted'', JStr ''QUJDRA==''),
           (''nextHop'', JStr ''0f0e0d0c0b0a09080706050403020100'')]"

definition onion_frame :: "jsval \<Rightarrow> jsval" where
  "onion_frame packet =
     JObj [(''type'', JStr ''ONION_PACKET''), (''packet'', packet),
           (''circuitId'', JStr ''00112233445566778899aabbccddeeff'')]"

section \<open>Evaluation on concrete ids\<close>

lemma upt8: "[0..<8] = [0, 1, 2, 3, 4, 5, 6, 7]"
  by (simp add: upt_rec)

lemma hex_digit_table:
  "hex_digit 0 = CHR ''0''" "hex_digit 1 = CHR ''1''" "hex_digit 2 = CHR ''2''"
  "hex_digit 3 = CHR ''3''" "hex_digit 4 = CHR ''4''" "hex_digit 5 = CHR ''5''"
  "hex_digit 6 = CHR ''6''" "hex_digit 7 = CHR ''7''" "hex_digit 8 = CHR ''8''"
  "hex_digit 9 = CHR ''9''" "hex_digit 10 = CHR ''a''" "hex_digit 11 = CHR ''b''"
  "hex_digit 12 = CHR ''c''" "hex_digit 13 = CHR ''d''" "hex_digit 14 = CHR ''e''"
  "hex_digit 15 = CHR ''f''" "hex_digit (Suc 0) = CHR ''1''"
  by code_simp+

lemmas hex_eval =
  getBucketIndex_def xorDistance_def to_hex_def hex_digit_table hex_val_def upt8

lemma idx_tie:
  "getBucketIndex ''0000000000000000000000000000000000000000''
     ''ab00000000000000000000000000000000000000'' = 0"
  "getBucketIndex ''0000000000000000000000000000000000000000''
     ''AB00000000000000000000000000000000000000'' = 0"
  by (simp_all add: hex_eval)

lemma concat_update_empty:
  "n < m \<Longrightarrow> concat ((replicate m [])[n := xs]) = xs"
  by (simp add: upd_conv_take_nth_drop min_def)

section \<open>The routing table: observing contacts\<close>

lemma findIndex_None: "findIndex P xs = None \<longleftrightarrow> (\<forall>x \<in> set xs. \<not> P x)"
  by (induction xs) auto

lemma splice_existing_Nil: "splice_existing nid [] = []"
  by (simp add: splice_existing_def)

lemma splice_existing_Cons:
  "splice_existing nid (c # cs) = (if cid c = nid then cs else c # splice_existing nid cs)"
  by (auto simp: splice_existing_def split: option.splits)

lemma splice_existing_filter:
  "distinct (map cid bucket) \<Longrightarrow> splice_existing nid bucket = filter (\<lambda>n. cid n \<noteq> nid) bucket"
proof (induction bucket)
  case Nil
  show ?case by (simp add: splice_existing_Nil)
next
  case (Cons c cs)
  show ?case
  proof (cases "cid c = nid")
    case True
    from Cons.prems True have "\<forall>n \<in> set cs. cid n \<noteq> nid"
      by (auto simp: image_iff)
    then have "filter (\<lambda>n. cid n \<noteq> nid) cs = cs" by (simp add: filter_id_conv)
    with True show ?thesis by (simp add: splice_existing_Cons)
  next
    case False
    with Cons show ?thesis by (simp add: splice_existing_Cons)
  qed
qed

lemma addNode_step:
  assumes "getBucketIndex (nodeId st) nid = i" and "i < length (buckets st)"
  shows "addNode st nid addr now =
           Inr (st\<lparr>buckets := (buckets st)[i :=
             (let b = \<lparr>cid = nid, address = addr, lastSeen = now\<rparr> # splice_existing nid (buckets st ! i)
              in if k st < length b then butlast b else b)]\<rparr>)"
  using assms by (simp add: addNode_def Let_def)

lemma scenario_refresh:
  assumes "getBucketIndex s A = i" "getBucketIndex s B = i" "getBucketIndex s C = i"
    and "i < 160" and "A \<noteq> B" "A \<noteq> C" "B \<noteq> C"
  shows "map cid (buckets (observe_all (new_kademlia s)
            [(A, ea, t1), (B, eb, t2), (C, ec, t3), (A, ea', t4)]) ! i) = [A, C, B]"
  using assms
  by (simp add: addNode_step new_kademlia_def splice_existing_Cons splice_existing_Nil)

lemma scenario_evict:
  assumes "getBucketIndex s A = i" "getBucketIndex s B = i" "getBucketIndex s C = i"
    and "i < 160" and "A \<noteq> B" "A \<noteq> C" "B \<noteq> C"
  shows "map cid (buckets (observe_all ((new_kademlia s)\<lparr>k := 2\<rparr>)
            [(A, ea, t1), (B, eb, t2), (C, ec, t3)]) ! i) = [C, B]"
  using assms
  by (simp add: addNode_step new_kademlia_def splice_existing_Cons splice_existing_Nil)

text \<open>
  Claim C5. \<open>observe(id, endpoint)\<close> is \<open>addNode\<close>: in the bucket of the id, an entry
  with that id is removed, the new contact goes to the front, and a bucket then longer
  than \<open>k\<close> loses its last entry; the other buckets stay as they are. Observing
  \<open>A, B, C\<close> into one bucket and then \<open>A\<close> again leaves \<open>[A, C, B]\<close>, and with
  \<open>k = 2\<close> observing \<open>A, B, C\<close> leaves \<open>[C, B]\<close>.
\<close>

theorem addNode_observe_lru:
  "(getBucketIndex (nodeId st) nid = i \<and> i < length (buckets st)
      \<and> distinct (map cid (buckets st ! i)) \<longrightarrow>
      (\<exists>st'. addNode st nid addr now = Inr st'
         \<and> buckets st' ! i =
             (let b = \<lparr>cid = nid, address = addr, lastSeen = now\<rparr>
                        # filter (\<lambda>n. cid n \<noteq> nid) (buckets st ! i)
              in if k st < length b then butlast b else b)
         \<and> (\<forall>j. j \<noteq> i \<longrightarrow> buckets st' ! j = buckets st ! j)
         \<and> length (buckets st') = length (buckets st)))
   \<and> (getBucketIndex s A = i' \<and> getBucketIndex s B = i' \<and> getBucketIndex s C = i'
        \<and> i' < 160 \<and> A \<noteq> B \<and> A \<noteq> C \<and> B \<noteq> C \<longrightarrow>
        map cid (buckets (observe_all (new_kademlia s)
            [(A, ea, t1), (B, eb, t2), (C, ec, t3), (A, ea', t4)]) ! i') = [A, C, B]
      \<and> map cid (buckets (observe_all ((new_kademlia s)\<lparr>k := 2\<rparr>)
            [(A, ea, t1), (B, eb, t2), (C, ec, t3)]) ! i') = [C, B])"
proof (intro conjI impI)
  assume h: "getBucketIndex (nodeId st) nid = i \<and> i < length (buckets st)
      \<and> distinct (map cid (buckets st ! i))"
  then have step: "addNode st nid addr now =
           Inr (st\<lparr>buckets := (buckets st)[i :=
             (let b = \<lparr>cid = nid, address = addr, lastSeen = now\<rparr> # splice_existing nid (buckets st ! i)
              in if k st < length b then butlast b else b)]\<rparr>)"
    by (simp add: addNode_step)
  from h have "splice_existing nid (buckets st ! i) = filter (\<lambda>n. cid n \<noteq> nid) (buckets st ! i)"
    by (simp add: splice_existing_filter)
  with step h show "\<exists>st'. addNode st nid addr now = Inr st'
         \<and> buckets st' ! i =
             (let b = \<lparr>cid = nid, address = addr, lastSeen = now\<rparr>
                        # filter (\<lambda>n. cid n \<noteq> nid) (buckets st ! i)
              in if k st < length b then butlast b else b)
         \<and> (\<forall>j. j \<noteq> i \<longrightarrow> buckets st' ! j = buckets st ! j)
         \<and> length (buckets st') = length (buckets st)"
    by simp
next
  assume "getBucketIndex s A = i' \<and> getBucketIndex s B = i' \<and> getBucketIndex s C = i'
        \<and> i' < 160 \<and> A \<noteq> B \<and> A \<noteq> C \<and> B \<noteq> C"
  then show "map cid (buckets (observe_all (new_kademlia s)
            [(A, ea, t1), (B, eb, t2), (C, ec, t3), (A, ea', t4)]) ! i') = [A, C, B]"
    by (elim conjE) (rule scenario_refresh; assumption)
next
  assume "getBucketIndex s A = i' \<and> getBucketIndex s B = i' \<and> getBucketIndex s C = i'
        \<and> i' < 160 \<and> A \<noteq> B \<and> A \<noteq> C \<and> B \<noteq> C"
  then show "map cid (buckets (observe_all ((new_kademlia s)\<lparr>k := 2\<rparr>)
            [(A, ea, t1), (B, eb, t2), (C, ec, t3)]) ! i') = [C, B]"
    by (elim conjE) (rule scenario_evict; assumption)
qed

subsection \<open>A table with two-byte ids\<close>

lemma idx04: "getBucketIndex ''0000'' ''0004'' = 13" by (simp add: hex_eval)
lemma idx05: "getBucketIndex ''0000'' ''0005'' = 13" by (simp add: hex_eval)
lemma idx06: "getBucketIndex ''0000'' ''0006'' = 13" by (simp add: hex_eval)

theorem addNode_observe_lru_witness:
  "getBucketIndex ''0000'' ''0004'' = 13
   \<and> (\<exists>st'. addNode (new_kademlia ''0000'') ''0004'' ''10.0.0.1:3000'' 7 = Inr st'
         \<and> buckets st' ! 13 =
             (let b = \<lparr>cid = ''0004'', address = ''10.0.0.1:3000'', lastSeen = 7\<rparr>
                        # filter (\<lambda>n. cid n \<noteq> ''0004'') (buckets (new_kademlia ''0000'') ! 13)
              in if k (new_kademlia ''0000'') < length b then butlast b else b)
         \<and> (\<forall>j. j \<noteq> 13 \<longrightarrow> buckets st' ! j = buckets (new_kademlia ''0000'') ! j)
         \<and> length (buckets st') = length (buckets (new_kademlia ''0000'')))
   \<and> map cid (buckets (observe_all (new_kademlia ''0000'')
        [(''0004'', ''a:1'', 1), (''0005'', ''b:1'', 2), (''0006'', ''c:1'', 3), (''0004'', ''a:1'', 4)]) ! 13)
      = [''0004'', ''0006'', ''0005'']
   \<and> map cid (buckets (observe_all ((new_kademlia ''0000'')\<lparr>k := 2\<rparr>)
        [(''0004'', ''a:1'', 1), (''0005'', ''b:1'', 2), (''0006'', ''c:1'', 3)]) ! 13)
      = [''0006'', ''0005'']"
proof -
  have h1: "getBucketIndex (nodeId (new_kademlia ''0000'')) ''0004'' = 13
      \<and> 13 < length (buckets (new_kademlia ''0000''))
      \<and> distinct (map cid (buckets (new_kademlia ''0000'') ! 13))"
    by (simp add: new_kademlia_def idx04)
  have h2: "getBucketIndex ''0000'' ''0004'' = 13 \<and> getBucketIndex ''0000'' ''0005'' = 13
      \<and> getBucketIndex ''0000'' ''0006'' = 13 \<and> (13::nat) < 160
      \<and> ''0004'' \<noteq> ''0005'' \<and> ''0004'' \<noteq> ''0006'' \<and> ''0005'' \<noteq> ''0006''"
    by (simp add: idx04 idx05 idx06)
  note T = addNode_observe_lru [of "new_kademlia ''0000''" "''0004''" 13 "''10.0.0.1:3000''" 7
      "''0000''" "''0004''" 13 "''0005''" "''0006''" "''a:1''" 1 "''b:1''" 2 "''c:1''" 3 "''a:1''" 4]
  from T h1 h2 idx04 show ?thesis by blast
qed

section \<open>The routing table: what the buckets hold\<close>

lemma hex_val_hex_digit: "n < 16 \<Longrightarrow> hex_val (hex_digit n) = Some n"
  by (auto simp: hex_val_def hex_digit_def Let_def)

lemma from_hex_to_hex: "from_hex (to_hex bs) = bs"
proof (induction bs)
  case Nil
  show ?case by (simp add: to_hex_def)
next
  case (Cons b bs)
  have lt: "unat b div 16 < 16"
    using unsigned_less [of b, where ?'a = nat] by (simp add: less_mult_imp_div_less)
  have "to_hex (b # bs) = hex_digit (unat b div 16) # hex_digit (unat b mod 16) # to_hex bs"
    by (simp add: to_hex_def)
  moreover have "(word_of_nat (16 * (unat b div 16) + unat b mod 16) :: byte) = b"
    by simp
  ultimately show ?case
    using Cons.IH lt by (simp add: hex_val_hex_digit)
qed

lemma test_mask: "(b AND 2 ^ n \<noteq> 0) \<longleftrightarrow> bit b n" for b :: byte
  using bit_iff_and_push_bit_not_eq_0 [of b n] by simp

lemma find_bit_Some:
  fixes b :: byte
  assumes "find (\<lambda>j. b AND push_bit (7 - j) 1 \<noteq> 0) [0..<8] = Some j"
  shows "j < 8 \<and> bit b (7 - j) \<and> (\<forall>j' < j. \<not> bit b (7 - j'))"
  using assms by (auto simp: find_Some_iff test_mask)

lemma find_bit_None:
  fixes b :: byte
  assumes "find (\<lambda>j. b AND push_bit (7 - j) 1 \<noteq> 0) [0..<8] = None"
  shows "b = 0"
proof (rule bit_eqI)
  fix n
  assume "possible_bit TYPE(byte) n"
  then have n: "n < 8" by (simp add: possible_bit_word)
  from assms have "\<forall>j < 8. \<not> bit b (7 - j)"
    by (auto simp: find_None_iff test_mask)
  moreover have "7 - n < 8" by simp
  ultimately have "\<not> bit b (7 - (7 - n))" by blast
  with n show "bit b n \<longleftrightarrow> bit (0 :: byte) n" by simp
qed


lemma bit_at_Cons_low: "p < 8 \<Longrightarrow> bit_at (b # bs) p = bit b (7 - p)"
  by (simp add: bit_at_def)

lemma bit_at_Cons_high: "bit_at (b # bs) (8 + p) = bit_at bs p"
proof -
  have "(8 + p) div 8 = Suc (p div 8)" by simp
  moreover have "(8 + p) mod 8 = p mod 8" by simp
  ultimately show ?thesis by (simp only: bit_at_def nth_Cons_Suc)
qed

lemma scan_bits_Some:
  "scan_bits bs i0 = Some n \<Longrightarrow>
     \<exists>p. p < 8 * length bs \<and> n = i0 * 8 + p \<and> bit_at bs p \<and> (\<forall>q < p. \<not> bit_at bs q)"
proof (induction bs arbitrary: i0)
  case Nil
  then show ?case by simp
next
  case (Cons b bs)
  show ?case
  proof (cases "find (\<lambda>j. b AND push_bit (7 - j) 1 \<noteq> 0) [0..<8]")
    case (Some j)
    from find_bit_Some [OF Some] have j: "j < 8" "bit b (7 - j)" "\<forall>j' < j. \<not> bit b (7 - j')"
      by auto
    from Cons.prems Some have n: "n = i0 * 8 + j" by simp
    have "bit_at (b # bs) j" using j by (simp add: bit_at_Cons_low)
    moreover have "\<forall>q < j. \<not> bit_at (b # bs) q"
      using j by (simp add: bit_at_Cons_low)
    ultimately show ?thesis using n j by (intro exI [of _ j]) simp
  next
    case None
    from find_bit_None [OF None] have b0: "b = 0" .
    from Cons.prems None have "scan_bits bs (i0 + 1) = Some n" by simp
    from Cons.IH [OF this] obtain p where p: "p < 8 * length bs" "n = (i0 + 1) * 8 + p"
      "bit_at bs p" "\<forall>q < p. \<not> bit_at bs q" by auto
    have "\<forall>q < 8 + p. \<not> bit_at (b # bs) q"
    proof (intro allI impI)
      fix q assume q: "q < 8 + p"
      show "\<not> bit_at (b # bs) q"
      proof (cases "q < 8")
        case True
        then show ?thesis using b0 by (simp add: bit_at_Cons_low)
      next
        case False
        then obtain q' where q': "q = 8 + q'" by (metis le_add_diff_inverse not_less)
        with q p(4) show ?thesis by (simp add: bit_at_Cons_high)
      qed
    qed
    with p show ?thesis
      by (intro exI [of _ "8 + p"]) (simp add: bit_at_Cons_high)
  qed
qed

lemma scan_bits_None: "scan_bits bs i0 = None \<Longrightarrow> \<forall>b \<in> set bs. b = 0"
proof (induction bs arbitrary: i0)
  case Nil
  show ?case by simp
next
  case (Cons b bs)
  show ?case
  proof (cases "find (\<lambda>j. b AND push_bit (7 - j) 1 \<noteq> 0) [0..<8]")
    case (Some j)
    with Cons.prems show ?thesis by simp
  next
    case None
    from find_bit_None [OF None] have "b = 0" .
    moreover from Cons.prems None have "scan_bits bs (i0 + 1) = None" by simp
    from Cons.IH [OF this] have "\<forall>b \<in> set bs. b = 0" .
    ultimately show ?thesis by simp
  qed
qed

lemma getBucketIndex_msb:
  assumes "d = xor_bufs (from_hex self) (from_hex nid)" and "i = getBucketIndex self nid"
  shows "(i < 8 * length d \<and> bit_at d i \<and> (\<forall>p < i. \<not> bit_at d p))
         \<or> (i = 159 \<and> (\<forall>b \<in> set d. b = 0))"
proof (cases "scan_bits d 0")
  case None
  with assms have "i = 159" by (simp add: getBucketIndex_def xorDistance_def from_hex_to_hex)
  with scan_bits_None [OF None] show ?thesis by simp
next
  case (Some n)
  with assms have "i = n" by (simp add: getBucketIndex_def xorDistance_def from_hex_to_hex)
  with scan_bits_Some [OF Some] show ?thesis by auto
qed

lemma butlast_le: "length xs \<le> Suc n \<Longrightarrow> length (butlast xs) \<le> n"
  by simp

lemma splice_existing_subset: "set (splice_existing nid bucket) \<subseteq> set bucket"
  by (induction bucket) (auto simp: splice_existing_Nil splice_existing_Cons)

lemma splice_existing_length: "length (splice_existing nid bucket) \<le> length bucket"
  by (induction bucket) (auto simp: splice_existing_Nil splice_existing_Cons)

lemma addNode_fields:
  "addNode st nid addr now = Inr st' \<Longrightarrow>
     nodeId st' = nodeId st \<and> k st' = k st \<and> alpha st' = alpha st
     \<and> storage st' = storage st \<and> length (buckets st') = length (buckets st)"
  by (auto simp: addNode_def Let_def split: if_splits)

lemma addNode_inv:
  assumes inv: "table_inv st" and ok: "addNode st nid addr now = Inr st'"
  shows "table_inv st'"
proof -
  define i where "i = getBucketIndex (nodeId st) nid"
  define old where "old = buckets st ! i"
  define c where "c = \<lparr>cid = nid, address = addr, lastSeen = now\<rparr>"
  define b where "b = c # splice_existing nid old"
  define new where "new = (if k st < length b then butlast b else b)"
  from ok have i: "i < length (buckets st)"
    by (auto simp: addNode_def i_def Let_def split: if_splits)
  from ok i have st': "st' = st\<lparr>buckets := (buckets st)[i := new]\<rparr>"
    unfolding new_def b_def c_def old_def i_def
    by (auto simp: addNode_def Let_def split: if_splits)
  from inv i have old: "length old \<le> k st" "distinct (map cid old)"
    "\<forall>x \<in> set old. getBucketIndex (nodeId st) (cid x) = i"
    by (auto simp: table_inv_def old_def)
  have sp: "splice_existing nid old = filter (\<lambda>n. cid n \<noteq> nid) old"
    using old(2) by (rule splice_existing_filter)
  have db: "distinct (map cid b)"
    using old(2) by (auto simp: b_def sp c_def distinct_map_filter)
  have sb: "\<forall>x \<in> set b. getBucketIndex (nodeId st) (cid x) = i"
    using old(3) by (auto simp: b_def sp c_def i_def)
  have lb: "length b \<le> Suc (k st)"
    using old(1) splice_existing_length [of nid old] by (simp add: b_def)
  have n1: "length new \<le> k st"
    using lb by (auto simp: new_def)
  have n2: "distinct (map cid new)"
    using db by (auto simp: new_def map_butlast distinct_butlast)
  have n3: "\<forall>x \<in> set new. getBucketIndex (nodeId st) (cid x) = i"
    using sb by (auto simp: new_def dest: in_set_butlastD)
  show ?thesis
    unfolding table_inv_def
  proof (intro allI impI)
    fix j assume "j < length (buckets st')"
    then have j: "j < length (buckets st)" by (simp add: st')
    show "length (buckets st' ! j) \<le> k st' \<and> distinct (map cid (buckets st' ! j))
          \<and> (\<forall>c \<in> set (buckets st' ! j). getBucketIndex (nodeId st') (cid c) = j)"
    proof (cases "j = i")
      case True
      with i n1 n2 n3 show ?thesis by (simp add: st')
    next
      case False
      with inv j show ?thesis by (simp add: st' table_inv_def)
    qed
  qed
qed

lemma observe_all_inv: "table_inv st \<Longrightarrow> table_inv (observe_all st ops)"
proof (induction ops arbitrary: st)
  case Nil
  then show ?case by simp
next
  case (Cons op ops)
  obtain nid addr now where op: "op = (nid, addr, now)" by (cases op) auto
  show ?case
  proof (cases "addNode st nid addr now")
    case (Inl e)
    with Cons op show ?thesis by simp
  next
    case (Inr st')
    with Cons.prems have "table_inv st'" by (simp add: addNode_inv)
    with Cons.IH Inr op show ?thesis by simp
  qed
qed

lemma observe_all_fields:
  "nodeId (observe_all st ops) = nodeId st \<and> k (observe_all st ops) = k st
   \<and> length (buckets (observe_all st ops)) = length (buckets st)"
proof (induction ops arbitrary: st)
  case Nil
  show ?case by simp
next
  case (Cons op ops)
  obtain nid addr now where op: "op = (nid, addr, now)" by (cases op) auto
  show ?case
  proof (cases "addNode st nid addr now")
    case (Inl e)
    with Cons op show ?thesis by simp
  next
    case (Inr st')
    from addNode_fields [OF Inr] Cons.IH [of st'] Inr op show ?thesis by simp
  qed
qed

lemma table_inv_new: "table_inv ((new_kademlia self)\<lparr>k := kk\<rparr>)"
  by (simp add: table_inv_def new_kademlia_def)

lemma from_hex_inj_canonical:
  "canonical_id a \<Longrightarrow> canonical_id b \<Longrightarrow> from_hex a = from_hex b \<Longrightarrow> a = b"
  by (metis canonical_id_def)

lemma addNode_cids:
  assumes ok: "addNode st nid addr now = Inr st'"
    and old: "\<forall>b \<in> set (buckets st). \<forall>c \<in> set b. P (cid c)" and new: "P nid"
  shows "\<forall>b \<in> set (buckets st'). \<forall>c \<in> set b. P (cid c)"
proof (intro ballI)
  fix b c assume b: "b \<in> set (buckets st')" and c: "c \<in> set b"
  define i where "i = getBucketIndex (nodeId st) nid"
  define fresh where "fresh = \<lparr>cid = nid, address = addr, lastSeen = now\<rparr> # splice_existing nid (buckets st ! i)"
  define popped where "popped = (if k st < length fresh then butlast fresh else fresh)"
  from ok have i: "i < length (buckets st)"
    by (auto simp: addNode_def i_def Let_def split: if_splits)
  from ok i have st': "buckets st' = (buckets st)[i := popped]"
    unfolding popped_def fresh_def i_def
    by (auto simp: addNode_def Let_def split: if_splits)
  have "set popped \<subseteq> set fresh"
    by (auto simp: popped_def dest: in_set_butlastD)
  also have "\<dots> \<subseteq> insert \<lparr>cid = nid, address = addr, lastSeen = now\<rparr> (set (buckets st ! i))"
    using splice_existing_subset [of nid "buckets st ! i"] by (auto simp: fresh_def)
  finally have sub: "set popped \<subseteq> insert \<lparr>cid = nid, address = addr, lastSeen = now\<rparr> (set (buckets st ! i))" .
  from b st' have "b = popped \<or> b \<in> set (buckets st)"
    using set_update_subset_insert [of "buckets st" i popped] by auto
  then show "P (cid c)"
  proof
    assume "b = popped"
    with c sub have "c = \<lparr>cid = nid, address = addr, lastSeen = now\<rparr> \<or> c \<in> set (buckets st ! i)"
      by auto
    then show ?thesis
    proof
      assume "c = \<lparr>cid = nid, address = addr, lastSeen = now\<rparr>"
      with new show ?thesis by simp
    next
      assume "c \<in> set (buckets st ! i)"
      moreover from i have "buckets st ! i \<in> set (buckets st)" by simp
      ultimately show ?thesis using old by blast
    qed
  next
    assume "b \<in> set (buckets st)"
    with old c show ?thesis by blast
  qed
qed

lemma observe_all_cids:
  assumes "\<forall>b \<in> set (buckets st). \<forall>c \<in> set b. P (cid c)" and "\<forall>op \<in> set ops. P (fst op)"
  shows "\<forall>b \<in> set (buckets (observe_all st ops)). \<forall>c \<in> set b. P (cid c)"
  using assms
proof (induction ops arbitrary: st)
  case Nil
  then show ?case by simp
next
  case (Cons op ops)
  obtain nid addr now where op: "op = (nid, addr, now)" by (cases op) auto
  from Cons.prems(2) op have nid: "P nid" and rest: "\<forall>op \<in> set ops. P (fst op)" by simp_all
  show ?case
  proof (cases "addNode st nid addr now")
    case (Inl e)
    with Cons.IH [OF Cons.prems(1) rest] op show ?thesis by simp
  next
    case (Inr st')
    from addNode_cids [OF Inr Cons.prems(1) nid]
    have "\<forall>b \<in> set (buckets st'). \<forall>c \<in> set b. P (cid c)" .
    from Cons.IH [OF this rest] Inr op show ?thesis by simp
  qed
qed

lemma distinct_decoded:
  assumes "distinct (map cid b)" and "\<forall>c \<in> set b. canonical_id (cid c)"
  shows "distinct (map (\<lambda>c. from_hex (cid c)) b)"
proof -
  have inj: "inj_on from_hex (set (map cid b))"
    using assms(2) by (auto intro!: inj_onI from_hex_inj_canonical)
  have "distinct (map from_hex (map cid b))"
    by (subst distinct_map) (intro conjI assms(1) inj)
  then show ?thesis by (simp only: map_map o_def)
qed

text \<open>
  Claim C6, as amended. After any run of observations on a fresh table, every bucket
  holds at most \<open>k\<close> contacts, their id strings are pairwise distinct, and for every
  contact of bucket \<open>i\<close> the first set bit of the XOR of the node's id and the
  contact's, counted from the most significant bit, is bit \<open>i\<close>; a contact at
  distance zero is in bucket 159. When every observed id is the lowercase hex string of
  its bytes, the ids of a bucket are pairwise distinct as bytes too.
\<close>

theorem observe_all_buckets:
  assumes "st = observe_all ((new_kademlia self)\<lparr>k := kk\<rparr>) ops"
  shows "length (buckets st) = 160 \<and> k st = kk \<and>
         (\<forall>i < 160.
            length (buckets st ! i) \<le> kk
            \<and> distinct (map cid (buckets st ! i))
            \<and> (\<forall>c \<in> set (buckets st ! i).
                  let d = xor_bufs (from_hex self) (from_hex (cid c))
                  in (i < 8 * length d \<and> bit_at d i \<and> (\<forall>p < i. \<not> bit_at d p))
                     \<or> (i = 159 \<and> (\<forall>b \<in> set d. b = 0))))
         \<and> ((\<forall>op \<in> set ops. canonical_id (fst op)) \<longrightarrow>
              (\<forall>i < 160. distinct (map (\<lambda>c. from_hex (cid c)) (buckets st ! i))))"
proof -
  have inv: "table_inv st"
    unfolding assms by (rule observe_all_inv) (rule table_inv_new)
  have f: "nodeId st = self" "k st = kk" "length (buckets st) = 160"
    unfolding assms using observe_all_fields [of "(new_kademlia self)\<lparr>k := kk\<rparr>" ops]
    by (simp_all add: new_kademlia_def)
  show ?thesis
  proof (intro conjI allI impI ballI)
    show "length (buckets st) = 160" by (rule f)
    show "k st = kk" by (rule f)
  next
    fix i :: nat assume "i < 160"
    with inv f show "length (buckets st ! i) \<le> kk" by (simp add: table_inv_def)
  next
    fix i :: nat assume "i < 160"
    with inv f show "distinct (map cid (buckets st ! i))" by (simp add: table_inv_def)
  next
    fix i :: nat and c assume i: "i < 160" and c: "c \<in> set (buckets st ! i)"
    with inv f have "i = getBucketIndex self (cid c)" by (auto simp: table_inv_def)
    from getBucketIndex_msb [OF refl this]
    show "let d = xor_bufs (from_hex self) (from_hex (cid c))
          in (i < 8 * length d \<and> bit_at d i \<and> (\<forall>p < i. \<not> bit_at d p))
             \<or> (i = 159 \<and> (\<forall>b \<in> set d. b = 0))"
      by (simp add: Let_def)
  next
    fix i :: nat
    assume canon: "\<forall>op \<in> set ops. canonical_id (fst op)" and i: "i < 160"
    have "\<forall>b \<in> set (buckets ((new_kademlia self)\<lparr>k := kk\<rparr>)). \<forall>c \<in> set b. canonical_id (cid c)"
      by (simp add: new_kademlia_def)
    from observe_all_cids [OF this canon]
    have all: "\<forall>b \<in> set (buckets st). \<forall>c \<in> set b. canonical_id (cid c)"
      by (simp add: assms)
    from i f have "buckets st ! i \<in> set (buckets st)" by simp
    with all have "\<forall>c \<in> set (buckets st ! i). canonical_id (cid c)" by blast
    moreover from inv f i have "distinct (map cid (buckets st ! i))" by (simp add: table_inv_def)
    ultimately show "distinct (map (\<lambda>c. from_hex (cid c)) (buckets st ! i))"
      by (intro distinct_decoded)
  qed
qed

theorem observe_all_buckets_witness:
  "map cid (buckets (observe_all ((new_kademlia ''0000'')\<lparr>k := 2\<rparr>)
       [(''0004'', ''a:1'', 1), (''0005'', ''b:1'', 2), (''0006'', ''c:1'', 3)]) ! 13)
     = [''0006'', ''0005'']
   \<and> length (buckets (observe_all ((new_kademlia ''0000'')\<lparr>k := 2\<rparr>)
       [(''0004'', ''a:1'', 1), (''0005'', ''b:1'', 2), (''0006'', ''c:1'', 3)]) ! 13) \<le> 2
   \<and> distinct (map cid (buckets (observe_all ((new_kademlia ''0000'')\<lparr>k := 2\<rparr>)
       [(''0004'', ''a:1'', 1), (''0005'', ''b:1'', 2), (''0006'', ''c:1'', 3)]) ! 13))
   \<and> distinct (map (\<lambda>c. from_hex (cid c)) (buckets (observe_all ((new_kademlia ''0000'')\<lparr>k := 2\<rparr>)
       [(''0004'', ''a:1'', 1), (''0005'', ''b:1'', 2), (''0006'', ''c:1'', 3)]) ! 13))
   \<and> bit_at (xor_bufs (from_hex ''0000'') (from_hex ''0006'')) 13
   \<and> \<not> bit_at (xor_bufs (from_hex ''0000'') (from_hex ''0006'')) 12"
proof -
  define st where "st = observe_all ((new_kademlia ''0000'')\<lparr>k := 2\<rparr>)
       [(''0004'', ''a:1'', 1), (''0005'', ''b:1'', 2), (''0006'', ''c:1'', 3)]"
  have ids: "map cid (buckets st ! 13) = [''0006'', ''0005'']"
    unfolding st_def by (rule scenario_evict) (simp_all add: idx04 idx05 idx06)
  have lt: "(13::nat) < 160" by simp
  have canon: "\<forall>op \<in> set [(''0004'', ''a:1'', 1::int), (''0005'', ''b:1'', 2), (''0006'', ''c:1'', 3)].
      canonical_id (fst op)"
    by (simp add: canonical_id_def to_hex_def hex_digit_table hex_val_def)
  from observe_all_buckets [OF st_def] lt canon
  have at13: "length (buckets st ! 13) \<le> 2 \<and> distinct (map cid (buckets st ! 13))
    \<and> (\<forall>c \<in> set (buckets st ! 13).
        let d = xor_bufs (from_hex ''0000'') (from_hex (cid c))
        in (13 < 8 * length d \<and> bit_at d 13 \<and> (\<forall>p < 13. \<not> bit_at d p))
           \<or> (13 = (159::nat) \<and> (\<forall>b \<in> set d. b = 0)))"
    and dec: "distinct (map (\<lambda>c. from_hex (cid c)) (buckets st ! 13))"
    by blast+
  from ids have "''0006'' \<in> set (map cid (buckets st ! 13))" by simp
  then obtain c where c: "c \<in> set (buckets st ! 13)" "cid c = ''0006''" by auto
  from at13 c have "let d = xor_bufs (from_hex ''0000'') (from_hex ''0006'')
        in (13 < 8 * length d \<and> bit_at d 13 \<and> (\<forall>p < 13. \<not> bit_at d p))
           \<or> (13 = (159::nat) \<and> (\<forall>b \<in> set d. b = 0))"
    by metis
  moreover have "(13::nat) \<noteq> 159" by simp
  ultimately have "bit_at (xor_bufs (from_hex ''0000'') (from_hex ''0006'')) 13
      \<and> (\<forall>p < 13. \<not> bit_at (xor_bufs (from_hex ''0000'') (from_hex ''0006'')) p)"
    unfolding Let_def by blast
  then have "bit_at (xor_bufs (from_hex ''0000'') (from_hex ''0006'')) 13"
    and "\<not> bit_at (xor_bufs (from_hex ''0000'') (from_hex ''0006'')) 12"
    by (blast, simp)
  with ids at13 dec show ?thesis unfolding st_def by blast
qed

lemma tie_bucket: "buckets tie_table ! 0 =
   [\<lparr>cid = ''AB00000000000000000000000000000000000000'', address = ''9.9.9.9:3000'', lastSeen = 2\<rparr>,
    \<lparr>cid = ''ab00000000000000000000000000000000000000'', address = ''1.1.1.1:3000'', lastSeen = 1\<rparr>]"
  by (simp add: tie_table_def addNode_step [where i = 0] idx_tie new_kademlia_def
        splice_existing_Cons splice_existing_Nil)

lemma tie_same_bytes:
  "from_hex ''AB00000000000000000000000000000000000000''
     = from_hex ''ab00000000000000000000000000000000000000''"
  by (simp add: hex_val_def)

text \<open>
  Claim C6 as stated fails: \<open>addNode\<close> compares ids as strings, so two spellings of
  the same 160 bits, observed one after the other on a fresh table, are both kept in
  bucket 0.
\<close>

theorem observe_all_same_nodeid_twice:
  "\<not> distinct (map (\<lambda>c. from_hex (cid c))
        (buckets (observe_all (new_kademlia ''0000000000000000000000000000000000000000'')
           [(''ab00000000000000000000000000000000000000'', ''1.1.1.1:3000'', 1),
            (''AB00000000000000000000000000000000000000'', ''9.9.9.9:3000'', 2)]) ! 0))"
  using tie_bucket tie_same_bytes by (simp add: tie_table_def del: from_hex.simps)

section \<open>The closest contacts\<close>

























section \<open>Storage: reads and expiry\<close>

lemma first_fulfilled_sendFindValue:
  "first_fulfilled (map (\<lambda>node. snd (sendFindValue send_fails st (address (fst node)) keyHash)) nodes) = JNull"
  by (induction nodes) (simp_all add: sendFindValue_def)

lemma retrieve_miss:
  assumes "fresh_entry st now (sha key) = None"
  shows "retrieve sha send_fails st now key =
           (JNull, map (\<lambda>node. (address (fst node), FIND_VALUE (sha key) (nodeId st)))
                     (take (alpha st) (findClosestNodes st (sha key) (k st))))"
  using assms
  by (simp add: retrieve_def Let_def o_def first_fulfilled_sendFindValue)
     (simp add: sendFindValue_def)

lemma retrieve_hit:
  assumes "fresh_entry st now (sha key) = Some e"
  shows "retrieve sha send_fails st now key = (stored_value e, [])"
  using assms by (simp add: retrieve_def)

lemma fresh_entry_Some:
  "fresh_entry st now kh = Some e \<longleftrightarrow> storage st kh = Some e \<and> now - timestamp e < ttl e"
  by (auto simp: fresh_entry_def split: option.splits)

lemma fresh_entry_None:
  "fresh_entry st now kh = None \<longleftrightarrow>
     storage st kh = None \<or> (\<exists>e. storage st kh = Some e \<and> \<not> now - timestamp e < ttl e)"
  by (auto simp: fresh_entry_def split: option.splits)

lemma findClosestNodes_storage:
  "findClosestNodes (st\<lparr>storage := m\<rparr>) t n = findClosestNodes st t n"
  by (simp add: findClosestNodes_def)

text \<open>
  Claim C8. A stored entry is read exactly while \<open>now - timestamp < ttl\<close>: then
  \<open>retrieve\<close> returns its value and sends nothing, as it does after a \<open>store\<close> of
  the key less than an hour before; an entry that is expired is to \<open>retrieve\<close> as if it
  were absent, and the datagrams of the fan-out are sent. The \<open>FIND_VALUE\<close> handler
  answers \<open>FOUND\<close> with the value for such an entry and \<open>NODES\<close> otherwise.
\<close>

theorem storage_observable:
  "(storage st (sha key) = Some e \<and> now - timestamp e < ttl e \<longrightarrow>
      retrieve sha send_fails st now key = (stored_value e, []))
   \<and> (storage st (sha key) = None
        \<or> (\<exists>e'. storage st (sha key) = Some e' \<and> \<not> now - timestamp e' < ttl e') \<longrightarrow>
      retrieve sha send_fails st now key
        = retrieve sha send_fails (st\<lparr>storage := (storage st)(sha key := None)\<rparr>) now key
      \<and> snd (retrieve sha send_fails st now key)
        = map (\<lambda>node. (address (fst node), FIND_VALUE (sha key) (nodeId st)))
            (take (alpha st) (findClosestNodes st (sha key) (k st))))
   \<and> (now' - now < 3600000 \<longrightarrow>
        (case store sha send_fails st now key v of
           (outcome, st', sent) \<Rightarrow> retrieve sha send_fails' st' now' key = (v, [])))
   \<and> (addNode st nid sender now = Inr seen \<longrightarrow>
        handleMessage st now sender nid (ReqFIND_VALUE kh) =
          (seen,
           [(sender,
             Response
               (case storage st kh of
                  Some e' \<Rightarrow>
                    if now - timestamp e' < ttl e' then FOUND (stored_value e')
                    else NODES (findClosestNodes seen kh (k st))
                | None \<Rightarrow> NODES (findClosestNodes seen kh (k st)))
               (nodeId st))]))"
proof (intro conjI impI)
  assume "storage st (sha key) = Some e \<and> now - timestamp e < ttl e"
  then have "fresh_entry st now (sha key) = Some e" by (simp add: fresh_entry_Some)
  then show "retrieve sha send_fails st now key = (stored_value e, [])"
    by (rule retrieve_hit [where sha = sha and key = key])
next
  assume "storage st (sha key) = None
        \<or> (\<exists>e'. storage st (sha key) = Some e' \<and> \<not> now - timestamp e' < ttl e')"
  then have miss: "fresh_entry st now (sha key) = None" by (simp add: fresh_entry_None)
  have miss': "fresh_entry (st\<lparr>storage := (storage st)(sha key := None)\<rparr>) now (sha key) = None"
    by (simp add: fresh_entry_def)
  show "retrieve sha send_fails st now key
        = retrieve sha send_fails (st\<lparr>storage := (storage st)(sha key := None)\<rparr>) now key"
    by (simp add: retrieve_miss [where sha = sha and key = key, OF miss]
          retrieve_miss [where sha = sha and key = key, OF miss'] findClosestNodes_storage)
  show "snd (retrieve sha send_fails st now key)
        = map (\<lambda>node. (address (fst node), FIND_VALUE (sha key) (nodeId st)))
            (take (alpha st) (findClosestNodes st (sha key) (k st)))"
    by (simp add: retrieve_miss [where sha = sha and key = key, OF miss])
next
  assume "now' - now < 3600000"
  then show "case store sha send_fails st now key v of
           (outcome, st', sent) \<Rightarrow> retrieve sha send_fails' st' now' key = (v, [])"
    by (simp add: store_def Let_def retrieve_def fresh_entry_def split: prod.splits)
next
  assume ok: "addNode st nid sender now = Inr seen"
  from addNode_fields [OF ok] have f: "storage seen = storage st" "nodeId seen = nodeId st" "k seen = k st"
    by simp_all
  show "handleMessage st now sender nid (ReqFIND_VALUE kh) =
          (seen,
           [(sender,
             Response
               (case storage st kh of
                  Some e' \<Rightarrow>
                    if now - timestamp e' < ttl e' then FOUND (stored_value e')
                    else NODES (findClosestNodes seen kh (k st))
                | None \<Rightarrow> NODES (findClosestNodes seen kh (k st)))
               (nodeId st))])"
    using ok f by (simp add: handleMessage_def fresh_entry_def split: option.splits)
qed


lemma stored_table_observe:
  "addNode stored_table ''0004'' ''a:1'' now =
     Inr (stored_table\<lparr>buckets := (replicate 160 [])[13 :=
            [\<lparr>cid = ''0004'', address = ''a:1'', lastSeen = now\<rparr>]]\<rparr>)"
  by (simp add: addNode_step [where i = 13] stored_table_def new_kademlia_def idx04
        splice_existing_Nil)

lemma stored_table_closest:
  "findClosestNodes (stored_table\<lparr>buckets := (replicate 160 [])[13 :=
       [\<lparr>cid = ''0004'', address = ''a:1'', lastSeen = now\<rparr>]]\<rparr>) ''00aa'' 20
     = [(\<lparr>cid = ''0004'', address = ''a:1'', lastSeen = now\<rparr>, ''00ae'')]"
proof -
  have d: "xorDistance ''0004'' ''00aa'' = ''00ae''" by (simp add: hex_eval)
  show ?thesis by (simp add: findClosestNodes_def concat_update_empty d)
qed

theorem storage_observable_witness:
  "retrieve (\<lambda>key. ''00aa'') (\<lambda>addr. False) stored_table 1000 ''alpha'' = (JNum 42, [])
   \<and> retrieve (\<lambda>key. ''00aa'') (\<lambda>addr. False) stored_table 3600000 ''alpha''
       = retrieve (\<lambda>key. ''00aa'') (\<lambda>addr. False)
           (stored_table\<lparr>storage := (storage stored_table)(''00aa'' := None)\<rparr>) 3600000 ''alpha''
   \<and> (case store (\<lambda>key. ''00aa'') (\<lambda>addr. False) (new_kademlia ''0000'') 0 ''alpha'' (JNum 42) of
         (outcome, st', sent) \<Rightarrow>
           retrieve (\<lambda>key. ''00aa'') (\<lambda>addr. False) st' 1000 ''alpha'' = (JNum 42, []))
   \<and> snd (handleMessage stored_table 1000 ''a:1'' ''0004'' (ReqFIND_VALUE ''00aa''))
       = [(''a:1'', Response (FOUND (JNum 42)) ''0000'')]
   \<and> snd (handleMessage stored_table 3600000 ''a:1'' ''0004'' (ReqFIND_VALUE ''00aa''))
       = [(''a:1'', Response (NODES [(\<lparr>cid = ''0004'', address = ''a:1'', lastSeen = 3600000\<rparr>, ''00ae'')]) ''0000'')]"
proof -
  define e where "e = \<lparr>stored_value = JNum 42, timestamp = 0, ttl = 3600000\<rparr>"
  have st: "storage stored_table ''00aa'' = Some e" "nodeId stored_table = ''0000''"
    "k stored_table = 20"
    by (simp_all add: stored_table_def new_kademlia_def e_def)
  have e: "stored_value e = JNum 42" "timestamp e = 0" "ttl e = 3600000"
    by (simp_all add: e_def)
  note fresh = storage_observable [where st = stored_table and sha = "\<lambda>key. ''00aa''"
      and key = "''alpha''" and e = e and now = 1000 and send_fails = "\<lambda>addr. False"
      and nid = "''0004''" and sender = "''a:1''" and kh = "''00aa''"
      and seen = "stored_table\<lparr>buckets := (replicate 160 [])[13 :=
            [\<lparr>cid = ''0004'', address = ''a:1'', lastSeen = 1000\<rparr>]]\<rparr>"]
  note expired = storage_observable [where st = stored_table and sha = "\<lambda>key. ''00aa''"
      and key = "''alpha''" and now = 3600000 and send_fails = "\<lambda>addr. False"
      and nid = "''0004''" and sender = "''a:1''" and kh = "''00aa''"
      and seen = "stored_table\<lparr>buckets := (replicate 160 [])[13 :=
            [\<lparr>cid = ''0004'', address = ''a:1'', lastSeen = 3600000\<rparr>]]\<rparr>"]
  note put = storage_observable [where st = "new_kademlia ''0000''" and sha = "\<lambda>key. ''00aa''"
      and key = "''alpha''" and now = 0 and now' = 1000 and v = "JNum 42"
      and send_fails = "\<lambda>addr. False" and send_fails' = "\<lambda>addr. False"]
  have 1: "retrieve (\<lambda>key. ''00aa'') (\<lambda>addr. False) stored_table 1000 ''alpha'' = (JNum 42, [])"
    using fresh st e by simp
  have 2: "retrieve (\<lambda>key. ''00aa'') (\<lambda>addr. False) stored_table 3600000 ''alpha''
       = retrieve (\<lambda>key. ''00aa'') (\<lambda>addr. False)
           (stored_table\<lparr>storage := (storage stored_table)(''00aa'' := None)\<rparr>) 3600000 ''alpha''"
    using expired st e by simp
  have 3: "case store (\<lambda>key. ''00aa'') (\<lambda>addr. False) (new_kademlia ''0000'') 0 ''alpha'' (JNum 42) of
         (outcome, st', sent) \<Rightarrow>
           retrieve (\<lambda>key. ''00aa'') (\<lambda>addr. False) st' 1000 ''alpha'' = (JNum 42, [])"
    using put by simp
  have 4: "snd (handleMessage stored_table 1000 ''a:1'' ''0004'' (ReqFIND_VALUE ''00aa''))
       = [(''a:1'', Response (FOUND (JNum 42)) ''0000'')]"
    using fresh st e stored_table_observe [of 1000] by simp
  have 5: "snd (handleMessage stored_table 3600000 ''a:1'' ''0004'' (ReqFIND_VALUE ''00aa''))
       = [(''a:1'', Response (NODES [(\<lparr>cid = ''0004'', address = ''a:1'', lastSeen = 3600000\<rparr>, ''00ae'')]) ''0000'')]"
    using expired st e stored_table_observe [of 3600000] stored_table_closest [of 3600000] by simp
  from 1 2 3 4 5 show ?thesis by blast
qed

section \<open>Retrieval over the network\<close>

lemma idx_querier_holder:
  "getBucketIndex ''a1a1a1a1a1a1a1a1a1a1a1a1a1a1a1a1a1a1a1a1'' ''b2b2b2b2b2b2b2b2b2b2b2b2b2b2b2b2b2b2b2b2'' = 3"
  by (simp add: hex_eval)

lemma idx_holder_querier:
  "getBucketIndex ''b2b2b2b2b2b2b2b2b2b2b2b2b2b2b2b2b2b2b2b2'' ''a1a1a1a1a1a1a1a1a1a1a1a1a1a1a1a1a1a1a1a1'' = 3"
  by (simp add: hex_eval)

lemma querier_eq:
  "querier = (new_kademlia ''a1a1a1a1a1a1a1a1a1a1a1a1a1a1a1a1a1a1a1a1'')\<lparr>buckets :=
     (replicate 160 [])[3 := [\<lparr>cid = ''b2b2b2b2b2b2b2b2b2b2b2b2b2b2b2b2b2b2b2b2'',
                              address = ''10.0.0.2:3000'', lastSeen = 0\<rparr>]]\<rparr>"
  by (simp add: querier_def addNode_step [where i = 3] idx_querier_holder new_kademlia_def
        splice_existing_Nil)

lemma holder_eq:
  "holder = (new_kademlia ''b2b2b2b2b2b2b2b2b2b2b2b2b2b2b2b2b2b2b2b2'')\<lparr>storage :=
     [''be76331b95dfc399cd776d2fc68021e0db03cc4f'' \<mapsto>
        \<lparr>stored_value = JNum 42, timestamp = 500, ttl = 3600000\<rparr>]\<rparr>"
  by (simp add: holder_def store_def alpha_hash_def Let_def new_kademlia_def split: prod.splits)

lemma querier_distance:
  "xorDistance ''b2b2b2b2b2b2b2b2b2b2b2b2b2b2b2b2b2b2b2b2'' ''be76331b95dfc399cd776d2fc68021e0db03cc4f''
     = ''0cc481a9276d712b7fc5df9d7432935269b17efd''"
  by (simp add: hex_eval)

text \<open>
  Claim C2 fails on the code. The holder has stored \<open>alpha\<close> and answers the querier's
  \<open>FIND_VALUE\<close> with \<open>FOUND 42\<close>; the querier, which has no local entry and the
  holder as its closest contact, sends that \<open>FIND_VALUE\<close> and returns \<open>null\<close>.
\<close>

theorem retrieve_ignores_found:
  "retrieve alpha_hash (\<lambda>addr. False) querier 1000 ''alpha''
     = (JNull, [(''10.0.0.2:3000'',
                 FIND_VALUE ''be76331b95dfc399cd776d2fc68021e0db03cc4f''
                   ''a1a1a1a1a1a1a1a1a1a1a1a1a1a1a1a1a1a1a1a1'')])
   \<and> snd (handleMessage holder 1000 ''10.0.0.1:3000'' ''a1a1a1a1a1a1a1a1a1a1a1a1a1a1a1a1a1a1a1a1''
            (ReqFIND_VALUE ''be76331b95dfc399cd776d2fc68021e0db03cc4f''))
     = [(''10.0.0.1:3000'', Response (FOUND (JNum 42)) ''b2b2b2b2b2b2b2b2b2b2b2b2b2b2b2b2b2b2b2b2'')]"
proof
  have miss: "fresh_entry querier 1000 (alpha_hash ''alpha'') = None"
    by (simp add: fresh_entry_def querier_eq new_kademlia_def)
  have closest: "findClosestNodes querier ''be76331b95dfc399cd776d2fc68021e0db03cc4f'' 20
      = [(\<lparr>cid = ''b2b2b2b2b2b2b2b2b2b2b2b2b2b2b2b2b2b2b2b2'', address = ''10.0.0.2:3000'', lastSeen = 0\<rparr>,
          ''0cc481a9276d712b7fc5df9d7432935269b17efd'')]"
    by (simp add: findClosestNodes_def querier_eq new_kademlia_def concat_update_empty
          querier_distance)
  have f: "alpha querier = 3" "k querier = 20"
    "nodeId querier = ''a1a1a1a1a1a1a1a1a1a1a1a1a1a1a1a1a1a1a1a1''"
    by (simp_all add: querier_eq new_kademlia_def)
  show "retrieve alpha_hash (\<lambda>addr. False) querier 1000 ''alpha''
     = (JNull, [(''10.0.0.2:3000'',
                 FIND_VALUE ''be76331b95dfc399cd776d2fc68021e0db03cc4f''
                   ''a1a1a1a1a1a1a1a1a1a1a1a1a1a1a1a1a1a1a1a1'')])"
    using closest by (simp add: retrieve_miss [where sha = alpha_hash, OF miss] f alpha_hash_def)
next
  have ok: "addNode holder ''a1a1a1a1a1a1a1a1a1a1a1a1a1a1a1a1a1a1a1a1'' ''10.0.0.1:3000'' 1000
      = Inr (holder\<lparr>buckets := (replicate 160 [])[3 :=
            [\<lparr>cid = ''a1a1a1a1a1a1a1a1a1a1a1a1a1a1a1a1a1a1a1a1'', address = ''10.0.0.1:3000'',
              lastSeen = 1000\<rparr>]]\<rparr>)"
    by (simp add: addNode_step [where i = 3] holder_eq new_kademlia_def idx_holder_querier
          splice_existing_Nil)
  show "snd (handleMessage holder 1000 ''10.0.0.1:3000'' ''a1a1a1a1a1a1a1a1a1a1a1a1a1a1a1a1a1a1a1a1''
            (ReqFIND_VALUE ''be76331b95dfc399cd776d2fc68021e0db03cc4f''))
     = [(''10.0.0.1:3000'', Response (FOUND (JNum 42)) ''b2b2b2b2b2b2b2b2b2b2b2b2b2b2b2b2b2b2b2b2'')]"
    by (simp add: handleMessage_def ok fresh_entry_def)
       (simp add: holder_eq new_kademlia_def)
qed

section \<open>Ephemeral keys\<close>

lemma signWithEphemeral_unknown:
  "ephemeralKeys idn keyId = None \<Longrightarrow>
     signWithEphemeral idn now message keyId = Inl (Error ''Ephemeral key not found'')"
  by (simp add: signWithEphemeral_def)

lemma signWithEphemeral_signs:
  assumes "ephemeralKeys idn keyId = Some e"
  shows "\<exists>idn'. signWithEphemeral idn now message keyId
           = Inr (Signature (privateKey (keyPair e)) message, idn')
         \<and> (ephemeralKeys idn' keyId = None
              \<longleftrightarrow> 100 < uses e + 1 \<or> 3600000 < now - created e)
         \<and> (\<forall>e'. ephemeralKeys idn' keyId = Some e'
              \<longrightarrow> uses e' = uses e + 1 \<and> uses e' \<le> 100 \<and> now - created e' \<le> 3600000)"
  using assms by (auto simp: signWithEphemeral_def Let_def)

text \<open>
  Claim C4 fails on the code. A key made at time 0 and used for the first time one
  millisecond after its hour still signs: the handle is removed, and the signature is
  made all the same.
\<close>

theorem signWithEphemeral_after_expiry:
  "signWithEphemeral
     (snd (generateEphemeralKey (new_identity 1 ''5f1d0c3e9a7b42d6885e0a1b2c3d4e5f'') 0 2
             ''0123456789abcdef''))
     3600001 ''hello'' ''0123456789abcdef''
   = Inr (Signature (RsaPriv 2 256) ''hello'',
          new_identity 1 ''5f1d0c3e9a7b42d6885e0a1b2c3d4e5f'')"
  by (simp add: signWithEphemeral_def generateEphemeralKey_def new_identity_def
        generateKeyPairSync_def Let_def)

section \<open>Onion layers\<close>

lemmas json_eval =
  quoted_len_def esc_len_def joined_len_def num_len_def base64_len_def oaep_overhead_def

lemma hello_len:
  "stringify_len (JObj [(''payload'', JStr ''hello''), (''timestamp'', JNum 1700000000000)]) = 45"
  by (simp add: json_eval)

lemma layer_len:
  "stringify_len (JObj [(''encrypted'', JCipher pk v), (''nextHop'', JStr tag)])
     = 27 + base64_len (pub_bytes pk) + quoted_len tag"
  by (simp add: json_eval)

lemma quoted_len_ge: "2 \<le> quoted_len s"
  by (simp add: quoted_len_def)

lemma encryptLayer_layer:
  "encryptLayer d pk tag = Inr p \<Longrightarrow>
     p = JObj [(''encrypted'', JCipher pk d), (''nextHop'', JStr tag)] \<and> d \<noteq> JUndefined
     \<and> stringify_len d + oaep_overhead \<le> pub_bytes pk"
  by (auto simp: encryptLayer_def split: if_splits)

lemma decryptLayer_encryptLayer:
  assumes "encryptLayer d pk tag = Inr p" and "key_matches sk pk"
  shows "decryptLayer p sk = Inr (json_roundtrip d)"
  using encryptLayer_layer [OF assms(1)] assms(2)
  by (simp add: decryptLayer_def get_prop_def)

lemma decryptLayer_wrong_key:
  assumes "encryptLayer d pk tag = Inr p" and "\<not> key_matches sk pk"
  shows "decryptLayer p sk = Inl (Error ''Decryption failed'')"
  using encryptLayer_layer [OF assms(1)] assms(2)
  by (simp add: decryptLayer_def get_prop_def)

lemma encryptLayer_rsa2048_twice:
  assumes "pub_bytes pk = 256" and "pub_bytes pk' = 256"
    and "encryptLayer d pk tag = Inr p"
  shows "encryptLayer p pk' tag' = Inl CryptoError"
proof -
  from encryptLayer_layer [OF assms(3)]
  have p: "p = JObj [(''encrypted'', JCipher pk d), (''nextHop'', JStr tag)]" by simp
  have "stringify_len p = 27 + base64_len 256 + quoted_len tag"
    unfolding p layer_len assms(1) ..
  then have "373 \<le> stringify_len p"
    using quoted_len_ge [of tag] by (simp add: base64_len_def)
  then show ?thesis
    using assms(2) by (simp add: encryptLayer_def p oaep_overhead_def)
qed

lemma encryptLayers_rsa2048:
  assumes "\<forall>h \<in> set hops. pub_bytes (hop_publicKey h) = 256" and "2 \<le> length hops"
  shows "\<exists>e. encryptLayers packet hops tags = Inl e"
proof -
  from assms(2) obtain h1 h2 rest where hops: "hops = h1 # h2 # rest"
    by (cases hops; cases "tl hops") auto
  with assms(1) have k: "pub_bytes (hop_publicKey h1) = 256" "pub_bytes (hop_publicKey h2) = 256"
    by simp_all
  show ?thesis
  proof (cases "encryptLayer packet (hop_publicKey h1) (tags (length (h2 # rest)))")
    case (Inl e)
    then show ?thesis by (simp add: hops)
  next
    case (Inr p)
    from encryptLayer_rsa2048_twice [OF k Inr]
    have "encryptLayer p (hop_publicKey h2) (tags (length rest)) = Inl CryptoError" .
    with Inr show ?thesis by (simp add: hops)
  qed
qed

lemma createOnionPacket_rsa2048:
  assumes "\<forall>h \<in> set circuit. pub_bytes (hop_publicKey h) = 256" and "2 \<le> length circuit"
  shows "\<exists>e. createOnionPacket message circuit now tags = Inl e"
  unfolding createOnionPacket_def using assms by (intro encryptLayers_rsa2048) simp_all

text \<open>
  Claim C3 fails on the code. With three RSA-2048 hops and the payload \<open>hello\<close> the
  innermost layer is built, and its serialisation (405 bytes) is longer than the 214
  bytes the next key encrypts: \<open>createOnionPacket\<close> throws and there is no packet to
  peel.
\<close>

theorem createOnionPacket_three_hops:
  "createOnionPacket (JStr ''hello'')
     [rsa2048_hop 1 ''a1a1a1a1a1a1a1a1a1a1a1a1a1a1a1a1a1a1a1a1'' ''10.0.0.1:3000'',
      rsa2048_hop 2 ''b2b2b2b2b2b2b2b2b2b2b2b2b2b2b2b2b2b2b2b2'' ''10.0.0.2:3000'',
      rsa2048_hop 3 ''c3c3c3c3c3c3c3c3c3c3c3c3c3c3c3c3c3c3c3c3'' ''10.0.0.3:3000'']
     1700000000000 fixed_tags
   = Inl CryptoError
   \<and> encryptLayer (JObj [(''payload'', JStr ''hello''), (''timestamp'', JNum 1700000000000)])
       (RsaPub 3 256) ''000102030405060708090a0b0c0d0e0f''
     = Inr (JObj [(''encrypted'',
                   JCipher (RsaPub 3 256)
                     (JObj [(''payload'', JStr ''hello''), (''timestamp'', JNum 1700000000000)])),
                  (''nextHop'', JStr ''000102030405060708090a0b0c0d0e0f'')])
   \<and> stringify_len (JObj [(''encrypted'',
                   JCipher (RsaPub 3 256)
                     (JObj [(''payload'', JStr ''hello''), (''timestamp'', JNum 1700000000000)])),
                  (''nextHop'', JStr ''000102030405060708090a0b0c0d0e0f'')]) = 405"
proof (intro conjI)
  have inner: "encryptLayer (JObj [(''payload'', JStr ''hello''), (''timestamp'', JNum 1700000000000)])
       (RsaPub 3 256) ''000102030405060708090a0b0c0d0e0f''
     = Inr (JObj [(''encrypted'',
                   JCipher (RsaPub 3 256)
                     (JObj [(''payload'', JStr ''hello''), (''timestamp'', JNum 1700000000000)])),
                  (''nextHop'', JStr ''000102030405060708090a0b0c0d0e0f'')])"
    unfolding encryptLayer_def hello_len by (simp add: oaep_overhead_def)
  show "encryptLayer (JObj [(''payload'', JStr ''hello''), (''timestamp'', JNum 1700000000000)])
       (RsaPub 3 256) ''000102030405060708090a0b0c0d0e0f''
     = Inr (JObj [(''encrypted'',
                   JCipher (RsaPub 3 256)
                     (JObj [(''payload'', JStr ''hello''), (''timestamp'', JNum 1700000000000)])),
                  (''nextHop'', JStr ''000102030405060708090a0b0c0d0e0f'')])"
    by (rule inner)
  have outer: "encryptLayer (JObj [(''encrypted'',
                   JCipher (RsaPub 3 256)
                     (JObj [(''payload'', JStr ''hello''), (''timestamp'', JNum 1700000000000)])),
                  (''nextHop'', JStr ''000102030405060708090a0b0c0d0e0f'')])
       (RsaPub 2 256) ''000102030405060708090a0b0c0d0e0f'' = Inl CryptoError"
    by (rule encryptLayer_rsa2048_twice [OF _ _ inner]) simp_all
  show "createOnionPacket (JStr ''hello'')
     [rsa2048_hop 1 ''a1a1a1a1a1a1a1a1a1a1a1a1a1a1a1a1a1a1a1a1'' ''10.0.0.1:3000'',
      rsa2048_hop 2 ''b2b2b2b2b2b2b2b2b2b2b2b2b2b2b2b2b2b2b2b2'' ''10.0.0.2:3000'',
      rsa2048_hop 3 ''c3c3c3c3c3c3c3c3c3c3c3c3c3c3c3c3c3c3c3c3'' ''10.0.0.3:3000'']
     1700000000000 fixed_tags
   = Inl CryptoError"
    by (simp add: createOnionPacket_def rsa2048_hop_def generateKeyPairSync_def fixed_tags_def
          inner outer del: stringify_len.simps)
  show "stringify_len (JObj [(''encrypted'',
                   JCipher (RsaPub 3 256)
                     (JObj [(''payload'', JStr ''hello''), (''timestamp'', JNum 1700000000000)])),
                  (''nextHop'', JStr ''000102030405060708090a0b0c0d0e0f'')]) = 405"
    unfolding layer_len by (simp add: json_eval)
qed

section \<open>Inbound onion packets\<close>

lemma processOnionPacket_no_send: "TcpSend addr v \<notin> set (processOnionPacket node message)"
  by (auto simp: processOnionPacket_def forwardOnionPacket_def split: sum.splits)

lemma processOnionPacket_forward:
  assumes "get_prop message ''packet'' = Inr packet"
    and "decryptLayer packet (privateKey (id_keyPair (identity node))) = Inr decrypted"
    and "get_prop decrypted ''nextHop'' = Inr nextHop" and "truthy nextHop"
  shows "processOnionPacket node message = [ConsoleError TypeError]"
  using assms by (simp add: processOnionPacket_def forwardOnionPacket_def)

lemma processOnionPacket_deliver:
  assumes "get_prop message ''packet'' = Inr packet"
    and "decryptLayer packet (privateKey (id_keyPair (identity node))) = Inr decrypted"
    and "get_prop decrypted ''nextHop'' = Inr nextHop" and "\<not> truthy nextHop"
    and "get_prop decrypted ''payload'' = Inr payload"
  shows "processOnionPacket node message = [Emit ''anonymousMessage'' payload]"
  using assms by (simp add: processOnionPacket_def)

text \<open>
  Claim C1 fails on the code. The frame carries a layer encrypted to the node's key
  whose plaintext has a \<open>nextHop\<close>; the node decrypts it, calls the member
  \<open>forwardOnionPacket\<close> that no class defines, and logs the TypeError. Nothing is
  sent to the next hop.
\<close>

theorem processOnionPacket_forward_fails:
  "encryptLayer forwarding_plaintext
     (publicKey (id_keyPair (identity (new_node 7 ''5f1d0c3e9a7b42d6885e0a1b2c3d4e5f''))))
     ''000102030405060708090a0b0c0d0e0f''
     = Inr (JObj [(''encrypted'', JCipher (RsaPub 7 256) forwarding_plaintext),
                  (''nextHop'', JStr ''000102030405060708090a0b0c0d0e0f'')])
   \<and> processMessage (new_node 7 ''5f1d0c3e9a7b42d6885e0a1b2c3d4e5f'')
       (onion_frame (JObj [(''encrypted'', JCipher (RsaPub 7 256) forwarding_plaintext),
                           (''nextHop'', JStr ''000102030405060708090a0b0c0d0e0f'')]))
     = Inr [ConsoleError TypeError]"
proof
  have len: "stringify_len forwarding_plaintext = 69"
    by (simp add: forwarding_plaintext_def json_eval)
  show "encryptLayer forwarding_plaintext
     (publicKey (id_keyPair (identity (new_node 7 ''5f1d0c3e9a7b42d6885e0a1b2c3d4e5f''))))
     ''000102030405060708090a0b0c0d0e0f''
     = Inr (JObj [(''encrypted'', JCipher (RsaPub 7 256) forwarding_plaintext),
                  (''nextHop'', JStr ''000102030405060708090a0b0c0d0e0f'')])"
    unfolding encryptLayer_def len
    by (simp add: new_node_def new_identity_def generateKeyPairSync_def oaep_overhead_def
          forwarding_plaintext_def)
next
  have dec: "decryptLayer (JObj [(''encrypted'', JCipher (RsaPub 7 256) forwarding_plaintext),
                           (''nextHop'', JStr ''000102030405060708090a0b0c0d0e0f'')])
       (privateKey (id_keyPair (identity (new_node 7 ''5f1d0c3e9a7b42d6885e0a1b2c3d4e5f''))))
     = Inr forwarding_plaintext"
    by (simp add: decryptLayer_def get_prop_def key_matches_def new_node_def new_identity_def
          generateKeyPairSync_def forwarding_plaintext_def)
  have "processOnionPacket (new_node 7 ''5f1d0c3e9a7b42d6885e0a1b2c3d4e5f'')
       (onion_frame (JObj [(''encrypted'', JCipher (RsaPub 7 256) forwarding_plaintext),
                           (''nextHop'', JStr ''000102030405060708090a0b0c0d0e0f'')]))
     = [ConsoleError TypeError]"
    by (rule processOnionPacket_forward [OF _ dec, where nextHop = "JStr ''0f0e0d0c0b0a09080706050403020100''"])
       (simp_all add: onion_frame_def get_prop_def forwarding_plaintext_def)
  then show "processMessage (new_node 7 ''5f1d0c3e9a7b42d6885e0a1b2c3d4e5f'')
       (onion_frame (JObj [(''encrypted'', JCipher (RsaPub 7 256) forwarding_plaintext),
                           (''nextHop'', JStr ''000102030405060708090a0b0c0d0e0f'')]))
     = Inr [ConsoleError TypeError]"
    by (simp add: processMessage_def onion_frame_def get_prop_def)
qed

section \<open>Sending an anonymous message\<close>

lemma buildCircuit_circuit:
  "buildCircuit router rnd ids =
     (randomCircuitId rnd,
      router\<lparr>circuits := (circuits router)(randomCircuitId rnd \<mapsto> buildHops rnd 0 ids)\<rparr>)"
  by (simp add: buildCircuit_def Let_def)

lemma length_buildHops: "length (buildHops rnd j ids) = length ids"
  by (induction ids arbitrary: j) (simp_all add: getNodeInfo_def)

lemma findClosestNodes_empty:
  assumes "concat (buckets table) = []"
  shows "findClosestNodes table t n = []"
  unfolding findClosestNodes_def assms by simp

lemma findCircuitNodes_empty:
  assumes "concat (buckets table) = []"
  shows "findCircuitNodes table rnd n = []"
  unfolding findCircuitNodes_def findClosestNodes_empty [OF assms] by simp

lemma findClosestNodes_nonempty:
  assumes "concat (buckets table) \<noteq> []"
  shows "findClosestNodes table t 1 \<noteq> []"
proof -
  have "length (sort_key snd (map (\<lambda>node. (node, xorDistance (cid node) t)) (concat (buckets table))))
          = length (concat (buckets table))"
    by simp
  with assms have "sort_key snd (map (\<lambda>node. (node, xorDistance (cid node) t)) (concat (buckets table))) \<noteq> []"
    by (metis length_0_conv)
  then show ?thesis by (simp add: findClosestNodes_def take_Suc split: list.splits)
qed

lemma length_findCircuitNodes:
  assumes "concat (buckets table) \<noteq> []"
  shows "length (findCircuitNodes table rnd n) = n"
proof -
  have one: "length (case findClosestNodes table (randomKeys rnd i) 1 of
                       [] \<Rightarrow> [] | closest # others \<Rightarrow> [cid (fst closest)]) = 1" for i
    using findClosestNodes_nonempty [OF assms, of "randomKeys rnd i"]
    by (cases "findClosestNodes table (randomKeys rnd i) 1") simp_all
  show ?thesis
    unfolding findCircuitNodes_def length_concat map_map o_def one
    by (simp add: sum_list_triv)
qed

text \<open>
  \<open>sendAnonymousMessage\<close> never reads \<open>targetPseudonym\<close>: with the same node, random
  choices, network and clock, two pseudonyms give the same outcome, the same remembered
  circuit and the same bytes on the wire; the circuit is made of the ids that the three
  random lookups of \<open>findCircuitNodes\<close> return.
\<close>

lemma sendAnonymousMessage_ignores_target:
  "sendAnonymousMessage node rnd connect_fails now message p1
     = sendAnonymousMessage node rnd connect_fails now message p2
   \<and> circuits (onionRouter (fst (snd (sendAnonymousMessage node rnd connect_fails now message p1))))
       (randomCircuitId rnd)
     = Some (buildHops rnd 0 (findCircuitNodes (dht node) rnd 3))
   \<and> map hop_id (buildHops rnd 0 (findCircuitNodes (dht node) rnd 3))
     = findCircuitNodes (dht node) rnd 3"
proof (intro conjI)
  show "sendAnonymousMessage node rnd connect_fails now message p1
     = sendAnonymousMessage node rnd connect_fails now message p2"
    by (simp add: sendAnonymousMessage_def)
  show "circuits (onionRouter (fst (snd (sendAnonymousMessage node rnd connect_fails now message p1))))
       (randomCircuitId rnd)
     = Some (buildHops rnd 0 (findCircuitNodes (dht node) rnd 3))"
    by (simp add: sendAnonymousMessage_def buildCircuit_circuit Let_def
          split: sum.splits list.splits prod.splits)
  show "map hop_id (buildHops rnd 0 (findCircuitNodes (dht node) rnd 3))
     = findCircuitNodes (dht node) rnd 3"
  proof -
    have "map hop_id (buildHops rnd j ids) = ids" for j ids
      by (induction ids arbitrary: j) (simp_all add: getNodeInfo_def)
    then show ?thesis .
  qed
qed

lemma createOnionPacket_empty:
  "createOnionPacket message [] now tags = Inr (JObj [(''payload'', message), (''timestamp'', JNum now)])"
  by (simp add: createOnionPacket_def)

text \<open>
  Claim C10, as amended. Over the empty circuit \<open>createOnionPacket\<close> returns the
  record \<open>{payload, timestamp}\<close> itself, with no layer. No resolution of
  \<open>buildCircuit\<close> fails, so \<open>sendAnonymousMessage\<close> has an empty circuit exactly
  when the routing table is empty; it then fails on \<open>circuit[0].address\<close> with a
  TypeError after remembering the circuit, and writes nothing to the wire.
\<close>

theorem createOnionPacket_empty_circuit:
  "createOnionPacket message [] now tags
     = Inr (JObj [(''payload'', message), (''timestamp'', JNum now)])
   \<and> length (buildHops rnd j ids) = length ids
   \<and> (concat (buckets (dht node)) \<noteq> [] \<longrightarrow>
        length (buildHops rnd 0 (findCircuitNodes (dht node) rnd 3)) = 3)
   \<and> (concat (buckets (dht node)) = [] \<longrightarrow>
        sendAnonymousMessage node rnd connect_fails now message target
          = (Inl TypeError,
             node\<lparr>onionRouter := (onionRouter node)\<lparr>circuits :=
                     (circuits (onionRouter node))(randomCircuitId rnd \<mapsto> [])\<rparr>\<rparr>,
             []))"
proof (intro conjI impI)
  show "createOnionPacket message [] now tags
     = Inr (JObj [(''payload'', message), (''timestamp'', JNum now)])"
    by (rule createOnionPacket_empty)
  show "length (buildHops rnd j ids) = length ids" by (rule length_buildHops)
next
  assume "concat (buckets (dht node)) \<noteq> []"
  then show "length (buildHops rnd 0 (findCircuitNodes (dht node) rnd 3)) = 3"
    by (simp add: length_buildHops length_findCircuitNodes)
next
  assume "concat (buckets (dht node)) = []"
  then have "findCircuitNodes (dht node) rnd 3 = []" by (rule findCircuitNodes_empty)
  then show "sendAnonymousMessage node rnd connect_fails now message target
          = (Inl TypeError,
             node\<lparr>onionRouter := (onionRouter node)\<lparr>circuits :=
                     (circuits (onionRouter node))(randomCircuitId rnd \<mapsto> [])\<rparr>\<rparr>,
             [])"
    by (simp add: sendAnonymousMessage_def buildCircuit_circuit createOnionPacket_empty)
qed

lemma new_node_table_empty:
  "concat (buckets (dht (new_node fresh tag))) = []"
  by (simp add: new_node_def new_kademlia_def)

theorem createOnionPacket_empty_circuit_witness:
  "createOnionPacket (JStr ''hello'') [] 1700000000000 fixed_tags
     = Inr (JObj [(''payload'', JStr ''hello''), (''timestamp'', JNum 1700000000000)])
   \<and> sendAnonymousMessage (new_node 7 ''5f1d0c3e9a7b42d6885e0a1b2c3d4e5f'') fixed_randomness
       (\<lambda>addr. False) 1700000000000 (JStr ''hello'') ''c0ffee''
     = (Inl TypeError,
        (new_node 7 ''5f1d0c3e9a7b42d6885e0a1b2c3d4e5f'')\<lparr>onionRouter :=
           (onionRouter (new_node 7 ''5f1d0c3e9a7b42d6885e0a1b2c3d4e5f''))\<lparr>circuits :=
              (circuits (onionRouter (new_node 7 ''5f1d0c3e9a7b42d6885e0a1b2c3d4e5f'')))
                (randomCircuitId fixed_randomness \<mapsto> [])\<rparr>\<rparr>,
        [])"
  using createOnionPacket_empty_circuit [where node = "new_node 7 ''5f1d0c3e9a7b42d6885e0a1b2c3d4e5f''"
      and rnd = fixed_randomness and message = "JStr ''hello''" and now = 1700000000000
      and tags = fixed_tags and connect_fails = "\<lambda>addr. False" and target = "''c0ffee''"]
    new_node_table_empty [of 7 "''5f1d0c3e9a7b42d6885e0a1b2c3d4e5f''"]
  by blast

text \<open>
  Claim C10 as stated fails: on a node whose routing table is empty the circuit has no
  hop, and the send ends in the TypeError with nothing written to any socket, so the
  plaintext record does not leave the node.
\<close>

theorem sendAnonymousMessage_empty_circuit_sends_nothing:
  "fst (sendAnonymousMessage (new_node 7 ''5f1d0c3e9a7b42d6885e0a1b2c3d4e5f'') fixed_randomness
          (\<lambda>addr. False) 1700000000000 (JStr ''hello'') ''c0ffee'') = Inl TypeError
   \<and> snd (snd (sendAnonymousMessage (new_node 7 ''5f1d0c3e9a7b42d6885e0a1b2c3d4e5f'')
          fixed_randomness (\<lambda>addr. False) 1700000000000 (JStr ''hello'') ''c0ffee'')) = []"
proof -
  have "findCircuitNodes (dht (new_node 7 ''5f1d0c3e9a7b42d6885e0a1b2c3d4e5f'')) fixed_randomness 3 = []"
    by (rule findCircuitNodes_empty) (rule new_node_table_empty)
  then show ?thesis
    by (simp add: sendAnonymousMessage_def buildCircuit_circuit createOnionPacket_empty)
qed

lemma buildHops_rsa2048:
  "\<forall>h \<in> set (buildHops rnd j ids). pub_bytes (hop_publicKey h) = 256"
  by (induction ids arbitrary: j) (simp_all add: getNodeInfo_def generateKeyPairSync_def)

lemma encryptLayers_rsa2048_error:
  assumes "\<forall>h \<in> set hops. pub_bytes (hop_publicKey h) = 256" and "2 \<le> length hops"
    and "packet \<noteq> JUndefined"
  shows "encryptLayers packet hops tags = Inl CryptoError"
proof -
  from assms(2) obtain h1 h2 rest where hops: "hops = h1 # h2 # rest"
    by (cases hops; cases "tl hops") auto
  with assms(1) have ks: "pub_bytes (hop_publicKey h1) = 256" "pub_bytes (hop_publicKey h2) = 256"
    by simp_all
  show ?thesis
  proof (cases "encryptLayer packet (hop_publicKey h1) (tags (length (h2 # rest)))")
    case (Inl e)
    with assms(3) have "e = CryptoError"
      by (auto simp: encryptLayer_def split: if_splits)
    with Inl show ?thesis by (simp add: hops)
  next
    case (Inr p)
    from encryptLayer_rsa2048_twice [OF ks Inr]
    have "encryptLayer p (hop_publicKey h2) (tags (length rest)) = Inl CryptoError" .
    with Inr show ?thesis by (simp add: hops)
  qed
qed

text \<open>
  What a send comes to, for every input: the circuit is remembered and the call fails
  before \<open>sendToNode\<close>, on \<open>circuit[0].address\<close> when the table is empty and in
  \<open>createOnionPacket\<close> otherwise, where the three hops all have RSA-2048 keys.
\<close>

lemma sendAnonymousMessage_result:
  "sendAnonymousMessage node rnd connect_fails now message target
     = (Inl (if concat (buckets (dht node)) = [] then TypeError else CryptoError),
        node\<lparr>onionRouter := (onionRouter node)\<lparr>circuits :=
                (circuits (onionRouter node))(randomCircuitId rnd \<mapsto>
                   buildHops rnd 0 (findCircuitNodes (dht node) rnd 3))\<rparr>\<rparr>,
        [])"
proof (cases "concat (buckets (dht node)) = []")
  case True
  then have "findCircuitNodes (dht node) rnd 3 = []" by (rule findCircuitNodes_empty)
  with True show ?thesis
    by (simp add: sendAnonymousMessage_def buildCircuit_circuit createOnionPacket_empty)
next
  case False
  define circuit where "circuit = buildHops rnd 0 (findCircuitNodes (dht node) rnd 3)"
  have len: "length circuit = 3"
    using False by (simp add: circuit_def length_buildHops length_findCircuitNodes)
  have "encryptLayers (JObj [(''payload'', message), (''timestamp'', JNum now)]) (rev circuit)
          (hopTags rnd) = Inl CryptoError"
    using len buildHops_rsa2048 [of rnd 0 "findCircuitNodes (dht node) rnd 3"]
    by (intro encryptLayers_rsa2048_error) (simp_all add: circuit_def)
  then have "createOnionPacket message circuit now (hopTags rnd) = Inl CryptoError"
    by (simp add: createOnionPacket_def)
  with False show ?thesis
    by (simp add: sendAnonymousMessage_def buildCircuit_circuit circuit_def)
qed

lemma idx_sender:
  "getBucketIndex ''5f1d0c3e9a7b42d6885e0a1b2c3d4e5f'' ''b2b2b2b2b2b2b2b2b2b2b2b2b2b2b2b2b2b2b2b2'' = 0"
  by (simp add: hex_eval)

lemma sender_table:
  "concat (buckets (dht sender_node)) =
     [\<lparr>cid = ''b2b2b2b2b2b2b2b2b2b2b2b2b2b2b2b2b2b2b2b2'', address = ''10.0.0.2:3000'', lastSeen = 0\<rparr>]"
  by (simp add: sender_node_def addNode_step [where i = 0] idx_sender new_kademlia_def
        splice_existing_Nil concat_update_empty)

lemma sender_circuit:
  "findCircuitNodes (dht sender_node) fixed_randomness 3
     = [''b2b2b2b2b2b2b2b2b2b2b2b2b2b2b2b2b2b2b2b2'', ''b2b2b2b2b2b2b2b2b2b2b2b2b2b2b2b2b2b2b2b2'',
        ''b2b2b2b2b2b2b2b2b2b2b2b2b2b2b2b2b2b2b2b2'']"
proof -
  have "findClosestNodes (dht sender_node) t 1
      = [(\<lparr>cid = ''b2b2b2b2b2b2b2b2b2b2b2b2b2b2b2b2b2b2b2b2'', address = ''10.0.0.2:3000'', lastSeen = 0\<rparr>,
          xorDistance ''b2b2b2b2b2b2b2b2b2b2b2b2b2b2b2b2b2b2b2b2'' t)]" for t
    by (simp add: findClosestNodes_def sender_table)
  moreover have "[0..<3] = [0, 1, 2]" by (simp add: upt_rec)
  ultimately show ?thesis
    by (simp add: findCircuitNodes_def)
qed

text \<open>
  Claim C9 fails on the code. The three lookups select the one contact of the table
  three times and the circuit is built from it, whatever the pseudonym; wrapping
  \<open>hello\<close> for these three RSA-2048 hops throws, and the payload is written to no
  socket: it reaches neither the named target nor the exit relay.
\<close>

theorem sendAnonymousMessage_delivers_nothing:
  "sendAnonymousMessage sender_node fixed_randomness (\<lambda>addr. False) 1700000000000
     (JStr ''hello'') ''0123456789abcdef0123456789abcdef''
   = (Inl CryptoError,
      sender_node\<lparr>onionRouter := new_router\<lparr>circuits :=
        [''00112233445566778899aabbccddeeff'' \<mapsto>
           [\<lparr>hop_id = ''b2b2b2b2b2b2b2b2b2b2b2b2b2b2b2b2b2b2b2b2'', hop_publicKey = RsaPub 100 256,
             hop_address = ''17.42.3.250:3141''\<rparr>,
            \<lparr>hop_id = ''b2b2b2b2b2b2b2b2b2b2b2b2b2b2b2b2b2b2b2b2'', hop_publicKey = RsaPub 101 256,
             hop_address = ''17.42.3.250:3141''\<rparr>,
            \<lparr>hop_id = ''b2b2b2b2b2b2b2b2b2b2b2b2b2b2b2b2b2b2b2b2'', hop_publicKey = RsaPub 102 256,
             hop_address = ''17.42.3.250:3141''\<rparr>]]\<rparr>\<rparr>,
      [])"
proof -
  have r: "onionRouter sender_node = new_router"
    by (simp add: sender_node_def new_node_def)
  show ?thesis
    unfolding sendAnonymousMessage_result sender_circuit sender_table r
    by (simp add: getNodeInfo_def generateKeyPairSync_def fixed_randomness_def new_router_def)
qed

end
